theory Spec2Isabelle
  imports Complex_Main
begin

text \<open>
  A model of the event lifecycle of the meeting-place planner: joining an event and the
  nickname it assigns, the automatic and the manual generation of recommendations,
  voting, finalizing, and the reads, each route handler as a function on an explicit
  store. The external recommendation generator, the random source and the clock are
  parameters. The properties proved about the handlers follow the definitions.
\<close>

section \<open>Nickname utilities (src/lib/utils.ts)\<close>

text \<open>
  Decimal rendering of a non-negative integer, as JavaScript's template literal and
  \<open>Number.prototype.toString\<close> produce it for the integers that occur here.
\<close>

definition digitChar :: "nat \<Rightarrow> char" where
  "digitChar d = ''0123456789'' ! (d mod 10)"

function toString :: "nat \<Rightarrow> string" where
  "toString n = (if n < 10 then [digitChar n] else toString (n div 10) @ [digitChar n])"
  by pat_completeness auto
termination
  by (relation "measure id") auto

declare toString.simps [simp del]

text \<open>\<open>s.slice(-2)\<close>: the last two characters, or all of \<open>s\<close> when it is shorter.\<close>

definition slice_neg2 :: "string \<Rightarrow> string" where
  "slice_neg2 s = drop (length s - 2) s"

definition maxAttempts :: nat where
  "maxAttempts = 90"

text \<open>
  The two sources of nondeterminism of \<open>generateUniqueNickname\<close> are parameters:
  \<open>rnd k\<close> is the value of \<open>Math.floor(Math.random() * 90)\<close> at the draw made when
  \<open>attempts = k\<close> (an integer in 0..89; the oracle is reduced modulo 90 so that every
  oracle is a legal run), and \<open>now\<close> is \<open>Date.now()\<close>.
\<close>

definition candidateName :: "(nat \<Rightarrow> nat) \<Rightarrow> string \<Rightarrow> nat \<Rightarrow> string" where
  "candidateName rnd baseNickname k = baseNickname @ ''_'' @ toString (rnd k mod 90 + 10)"

definition fallbackName :: "nat \<Rightarrow> string \<Rightarrow> string" where
  "fallbackName now baseNickname = baseNickname @ ''_'' @ slice_neg2 (toString now)"

text \<open>
  The do-while loop. Each iteration draws a suffix, increments \<open>attempts\<close>, and then
  either takes the timestamp fallback and breaks (\<open>attempts > maxAttempts\<close>), or
  repeats while the drawn name is taken.
\<close>

function uniqueNameLoop :: "(nat \<Rightarrow> nat) \<Rightarrow> nat \<Rightarrow> string \<Rightarrow> string list \<Rightarrow> nat \<Rightarrow> string" where
  "uniqueNameLoop rnd now baseNickname existingNicknames attempts =
     (if attempts + 1 > maxAttempts then fallbackName now baseNickname
      else if candidateName rnd baseNickname attempts \<in> set existingNicknames
           then uniqueNameLoop rnd now baseNickname existingNicknames (attempts + 1)
           else candidateName rnd baseNickname attempts)"
  by pat_completeness auto
termination
  by (relation "measure (\<lambda>(rnd, now, b, ex, attempts). maxAttempts - attempts)") auto

declare uniqueNameLoop.simps [simp del]

definition generateUniqueNickname :: "(nat \<Rightarrow> nat) \<Rightarrow> nat \<Rightarrow> string \<Rightarrow> string list \<Rightarrow> string" where
  "generateUniqueNickname rnd now baseNickname existingNicknames =
     (if baseNickname \<notin> set existingNicknames then baseNickname
      else uniqueNameLoop rnd now baseNickname existingNicknames 0)"


section \<open>Data model\<close>

text \<open>
  The rows of the four tables, with the fields the route handlers and
  \<open>src/types/index.ts\<close> use. Dates are milliseconds since the epoch, identifiers of
  participants, recommendations and votes are the store's sequence numbers.
\<close>

datatype EventStatus = WAITING | READY | VOTING | FINALIZED | EXPIRED

record Event =
  e_id :: string
  e_shortCode :: string
  e_title :: string
  e_purpose :: "string option"
  e_eventTime :: "nat option"
  e_specialRequirements :: "string option"
  e_status :: EventStatus
  e_expectedParticipants :: nat
  e_votingStartedAt :: "nat option"
  e_votingEndedAt :: "nat option"
  e_finalLocationId :: "nat option"
  e_createdAt :: nat
  e_updatedAt :: nat
  e_expiresAt :: nat

record Participant =
  p_id :: nat
  p_eventId :: string
  p_nickname :: string
  p_address :: string
  p_isCreator :: bool
  p_joinedAt :: nat

record Coordinates =
  lat :: rat
  lng :: rat

record DistanceInfo =
  d_participant :: string
  d_estimate :: string
  d_transport :: string
  d_participant_address :: "string option"
  d_coordinates :: "Coordinates option"
  d_time :: "string option"

record Recommendation =
  r_id :: nat
  r_eventId :: string
  r_locationName :: "string option"
  r_locationType :: "string option"
  r_description :: "string option"
  r_fairnessAnalysis :: "string option"
  r_suitabilityScore :: "rat option"
  r_rank :: nat
  r_facilities :: "string list option"
  r_distances :: "DistanceInfo list option"
  r_generatedAt :: nat

record Vote =
  v_id :: nat
  v_recommendationId :: nat
  v_eventId :: string
  v_voterNickname :: string
  v_votedAt :: nat

record Store =
  events :: "Event list"
  participants :: "Participant list"
  recommendations :: "Recommendation list"
  votes :: "Vote list"
  nextParticipantId :: nat
  nextRecommendationId :: nat
  nextVoteId :: nat

subsection \<open>The recommendation generator's interface (src/types/index.ts)\<close>

record LLMParticipant =
  q_nickname :: string
  q_address :: string

record LLMRequest =
  q_title :: string
  q_purpose :: string
  q_eventTime :: "nat option"
  q_specialRequirements :: "string option"
  q_participants :: "LLMParticipant list"

record LLMRecommendation =
  l_rank :: nat
  l_name :: string
  l_type :: string
  l_description :: string
  l_fairness_analysis :: string
  l_coordinates :: Coordinates
  l_distances :: "DistanceInfo list"
  l_facilities :: "string list"
  l_suitability_score :: rat

record LLMResponse =
  l_analysis :: "string option"
  l_recommendations :: "LLMRecommendation list option"

text \<open>
  \<open>llmService.generateRecommendations\<close> is an external collaborator: a call either
  throws an \<open>Error\<close> with a message or resolves to a response. The handlers take the
  generator as a parameter of this type.
\<close>

datatype LLMOutcome = Throws string | Returns LLMResponse

type_synonym Generator = "LLMRequest \<Rightarrow> LLMOutcome"

subsection \<open>Responses\<close>

datatype ErrorCode =
    VALIDATION_ERROR | EVENT_NOT_FOUND | EVENT_FULL | NETWORK_ERROR | EVENT_NOT_READY
  | PARTICIPANTS_NOT_COMPLETE | NOT_AUTHORIZED | LLM_ERROR | VOTING_NOT_STARTED
  | NOT_PARTICIPANT | ALREADY_VOTED | VOTING_ENDED

text \<open>
  A failed response \<open>{success: false, error}\<close> with its HTTP status is \<open>Inl (error, status)\<close>;
  a successful one \<open>{success: true, data}\<close> is \<open>Inr data\<close>.
\<close>

type_synonym 'a Response = "(ErrorCode \<times> nat) + 'a"

record ParticipantJson =
  pj_id :: nat
  pj_nickname :: string
  pj_address :: string
  pj_is_creator :: bool
  pj_joined_at :: nat

record JoinData =
  jd_participant :: ParticipantJson
  jd_participant_count :: nat
  jd_should_generate_recommendations :: bool
  jd_nickname_modified :: bool
  jd_original_nickname :: "string option"
  jd_assigned_nickname :: string

record RetryData =
  rd_message :: string
  rd_status :: EventStatus

record VoteData =
  vd_voteCount :: nat
  vd_voters :: "string list"
  vd_hasCurrentUserVoted :: bool

record VoteSummary =
  vs_recommendationId :: nat
  vs_locationName :: string
  vs_voteCount :: nat
  vs_voters :: "string list"
  vs_hasCurrentUserVoted :: bool

record VotesData =
  vt_recommendations :: "VoteSummary list"
  vt_totalVotes :: nat
  vt_participantCount :: nat

record RecommendationJson =
  rj_id :: nat
  rj_location_name :: "string option"
  rj_location_type :: "string option"
  rj_description :: "string option"
  rj_fairness_analysis :: "string option"
  rj_suitability_score :: "rat option"
  rj_rank :: nat
  rj_facilities :: "string list option"
  rj_distances :: "DistanceInfo list option"
  rj_generated_at :: nat

record FinalizeData =
  fd_finalLocation :: RecommendationJson
  fd_votingEndedAt :: nat
  fd_status :: EventStatus

record EventDetailResponse =
  ed_event :: Event
  ed_participants :: "Participant list"
  ed_recommendations :: "Recommendation list"
  ed_finalLocation :: "Recommendation option"


section \<open>Store operations\<close>

text \<open>
  The Prisma calls the handlers make, as functions on the store. A handler's
  \<open>new Date()\<close> is its parameter \<open>now\<close>; a created row takes the next number of its
  table's sequence and \<open>now\<close> for its defaulted timestamp.
\<close>

definition findUniqueLive :: "Store \<Rightarrow> string \<Rightarrow> nat \<Rightarrow> Event option" where
  \<comment> \<open>\<open>event.findUnique({where: {id, expiresAt: {gt: new Date()}}})\<close>\<close>
  "findUniqueLive s eventId now = find (\<lambda>e. e_id e = eventId \<and> e_expiresAt e > now) (events s)"

definition findUniqueEvent :: "Store \<Rightarrow> string \<Rightarrow> Event option" where
  \<comment> \<open>\<open>event.findUnique({where: {id}})\<close>\<close>
  "findUniqueEvent s eventId = find (\<lambda>e. e_id e = eventId) (events s)"

definition eventParticipants :: "Store \<Rightarrow> string \<Rightarrow> Participant list" where
  \<comment> \<open>\<open>include: {participants: true}\<close>\<close>
  "eventParticipants s eventId = filter (\<lambda>p. p_eventId p = eventId) (participants s)"

definition eventParticipantsByJoinedAt :: "Store \<Rightarrow> string \<Rightarrow> Participant list" where
  \<comment> \<open>\<open>include: {participants: {orderBy: {joinedAt: 'asc'}}}\<close>\<close>
  "eventParticipantsByJoinedAt s eventId = sort_key p_joinedAt (eventParticipants s eventId)"

definition eventRecommendations :: "Store \<Rightarrow> string \<Rightarrow> Recommendation list" where
  "eventRecommendations s eventId = filter (\<lambda>r. r_eventId r = eventId) (recommendations s)"

definition eventRecommendationsByRank :: "Store \<Rightarrow> string \<Rightarrow> Recommendation list" where
  "eventRecommendationsByRank s eventId = sort_key r_rank (eventRecommendations s eventId)"

definition createParticipant ::
  "Store \<Rightarrow> string \<Rightarrow> string \<Rightarrow> string \<Rightarrow> bool \<Rightarrow> nat \<Rightarrow> Participant \<times> Store" where
  "createParticipant s eventId nickname address isCreator now =
     (let participant = \<lparr>p_id = nextParticipantId s, p_eventId = eventId, p_nickname = nickname,
                          p_address = address, p_isCreator = isCreator, p_joinedAt = now\<rparr>
      in (participant, s\<lparr>participants := participants s @ [participant],
                         nextParticipantId := nextParticipantId s + 1\<rparr>))"

definition updateEvent :: "Store \<Rightarrow> string \<Rightarrow> (Event \<Rightarrow> Event) \<Rightarrow> Store" where
  \<comment> \<open>\<open>event.update({where: {id}, data})\<close>\<close>
  "updateEvent s eventId f = s\<lparr>events := map (\<lambda>e. if e_id e = eventId then f e else e) (events s)\<rparr>"

definition recommendationData :: "string \<Rightarrow> nat \<Rightarrow> nat \<Rightarrow> LLMRecommendation \<Rightarrow> Recommendation" where
  \<comment> \<open>the \<open>recommendationData\<close> entry built from one generator entry, as stored\<close>
  "recommendationData eventId now newId rec =
     \<lparr>r_id = newId, r_eventId = eventId, r_locationName = Some (l_name rec),
      r_locationType = Some (l_type rec), r_description = Some (l_description rec),
      r_fairnessAnalysis = Some (l_fairness_analysis rec),
      r_suitabilityScore = Some (l_suitability_score rec), r_rank = l_rank rec,
      r_facilities = Some (l_facilities rec), r_distances = Some (l_distances rec),
      r_generatedAt = now\<rparr>"

definition createRecommendation :: "string \<Rightarrow> nat \<Rightarrow> LLMRecommendation \<Rightarrow> Store \<Rightarrow> Store" where
  "createRecommendation eventId now rec s =
     s\<lparr>recommendations := recommendations s @ [recommendationData eventId now (nextRecommendationId s) rec],
       nextRecommendationId := nextRecommendationId s + 1\<rparr>"

definition deleteManyRecommendations :: "Store \<Rightarrow> string \<Rightarrow> Store" where
  \<comment> \<open>Modelled from the spec: the Prisma schema is not among the sources; by the spec's data
      model, votes that reference a deleted recommendation are cascade-deleted.\<close>
  "deleteManyRecommendations s eventId =
     s\<lparr>recommendations := filter (\<lambda>r. r_eventId r \<noteq> eventId) (recommendations s),
       votes := filter (\<lambda>v. v_recommendationId v \<notin> r_id ` set (eventRecommendations s eventId)) (votes s)\<rparr>"

definition createVote :: "Store \<Rightarrow> nat \<Rightarrow> string \<Rightarrow> string \<Rightarrow> nat \<Rightarrow> Vote \<times> Store" where
  "createVote s recommendationId eventId nickname now =
     (let vote = \<lparr>v_id = nextVoteId s, v_recommendationId = recommendationId, v_eventId = eventId,
                   v_voterNickname = nickname, v_votedAt = now\<rparr>
      in (vote, s\<lparr>votes := votes s @ [vote], nextVoteId := nextVoteId s + 1\<rparr>))"

definition deleteVote :: "Store \<Rightarrow> nat \<Rightarrow> Store" where
  \<comment> \<open>\<open>vote.delete({where: {id}})\<close>\<close>
  "deleteVote s voteId = s\<lparr>votes := filter (\<lambda>v. v_id v \<noteq> voteId) (votes s)\<rparr>"

section \<open>Joining an event (src/app/api/events/[id]/participants/route.ts)\<close>

text \<open>
  The handlers are modelled from the point where the request body has passed its zod
  schema: the validated fields are arguments.
\<close>

definition orOther :: "string option \<Rightarrow> string" where
  \<comment> \<open>\<open>purpose || 'other'\<close>\<close>
  "orOther x = (case x of None \<Rightarrow> ''other'' | Some v \<Rightarrow> if v = [] then ''other'' else v)"

definition orUndefined :: "string option \<Rightarrow> string option" where
  \<comment> \<open>\<open>specialRequirements || undefined\<close>\<close>
  "orUndefined x = (case x of None \<Rightarrow> None | Some v \<Rightarrow> if v = [] then None else Some v)"

definition buildLLMRequest :: "Event \<Rightarrow> Participant list \<Rightarrow> LLMRequest" where
  "buildLLMRequest event ps =
     \<lparr>q_title = e_title event, q_purpose = orOther (e_purpose event),
      q_eventTime = e_eventTime event,
      q_specialRequirements = orUndefined (e_specialRequirements event),
      q_participants = map (\<lambda>p. \<lparr>q_nickname = p_nickname p, q_address = p_address p\<rparr>) ps\<rparr>"

definition participantJson :: "Participant \<Rightarrow> ParticipantJson" where
  "participantJson p =
     \<lparr>pj_id = p_id p, pj_nickname = p_nickname p, pj_address = p_address p,
      pj_is_creator = p_isCreator p, pj_joined_at = p_joinedAt p\<rparr>"

text \<open>
  The task that \<open>Promise.resolve().then(...)\<close> schedules is returned beside the response:
  the event's id and the generator request it closes over. It runs later, as a step of
  its own (\<open>runGenerationTask\<close>).
\<close>

type_synonym GenerationTask = "string \<times> LLMRequest"

definition participants_POST ::
  "(nat \<Rightarrow> nat) \<Rightarrow> nat \<Rightarrow> string \<Rightarrow> string \<Rightarrow> string \<Rightarrow> Store
     \<Rightarrow> JoinData Response \<times> Store \<times> GenerationTask option" where
  "participants_POST rnd now eventId nickname address s =
     (case findUniqueLive s eventId now of
        None \<Rightarrow> (Inl (EVENT_NOT_FOUND, 404), s, None)
      | Some event \<Rightarrow>
          if e_status event \<noteq> WAITING then (Inl (EVENT_FULL, 403), s, None)
          else if length (eventParticipants s eventId) \<ge> e_expectedParticipants event
          then (Inl (EVENT_FULL, 403), s, None)
          else
            let existingNicknames = map p_nickname (eventParticipants s eventId);
                originalNickname = nickname;
                assignedNickname = generateUniqueNickname rnd now nickname existingNicknames;
                wasModified = (originalNickname \<noteq> assignedNickname);
                (participant, s1) = createParticipant s eventId assignedNickname address False now;
                newParticipantCount = length (eventParticipants s eventId) + 1;
                (s2, task) =
                  (if newParticipantCount = e_expectedParticipants event then
                     let s2 = updateEvent s1 eventId (\<lambda>e. e\<lparr>e_status := READY\<rparr>) in
                     (case findUniqueEvent s2 eventId of
                        None \<Rightarrow> (s2, None)
                      | Some fullEvent \<Rightarrow>
                          if length (eventParticipantsByJoinedAt s2 eventId) \<ge> 2
                          then (s2, Some (eventId,
                                  buildLLMRequest fullEvent (eventParticipantsByJoinedAt s2 eventId)))
                          else (s2, None))
                   else (s1, None))
            in (Inr \<lparr>jd_participant = participantJson participant,
                     jd_participant_count = newParticipantCount,
                     jd_should_generate_recommendations =
                       (newParticipantCount = e_expectedParticipants event),
                     jd_nickname_modified = wasModified,
                     jd_original_nickname = (if wasModified then Some originalNickname else None),
                     jd_assigned_nickname = assignedNickname\<rparr>, s2, task))"

text \<open>
  The scheduled task. A thrown generator call reaches the \<open>catch\<close> block, which writes
  \<open>updatedAt\<close>; an empty or missing list skips the \<open>if\<close>; otherwise one transaction
  creates a row per generator entry and moves the event to VOTING.
\<close>

definition persistGenerated :: "nat \<Rightarrow> string \<Rightarrow> LLMRecommendation list \<Rightarrow> Store \<Rightarrow> Store" where
  "persistGenerated now eventId recs s =
     updateEvent (fold (createRecommendation eventId now) recs s) eventId
       (\<lambda>e. e\<lparr>e_status := VOTING, e_votingStartedAt := Some now\<rparr>)"

definition runGenerationTask :: "Generator \<Rightarrow> nat \<Rightarrow> GenerationTask \<Rightarrow> Store \<Rightarrow> Store" where
  "runGenerationTask llm now task s =
     (case task of (eventId, llmRequest) \<Rightarrow>
        (case llm llmRequest of
           Throws msg \<Rightarrow> updateEvent s eventId (\<lambda>e. e\<lparr>e_updatedAt := now\<rparr>)
         | Returns response \<Rightarrow>
             (case l_recommendations response of
                None \<Rightarrow> s
              | Some recs \<Rightarrow> if length recs > 0 then persistGenerated now eventId recs s else s)))"

definition participants_GET :: "nat \<Rightarrow> string \<Rightarrow> Store \<Rightarrow> ParticipantJson list Response" where
  \<comment> \<open>\<open>participant.findMany\<close> with the relation filter \<open>event: {expiresAt: {gt: now}}\<close>\<close>
  "participants_GET now eventId s =
     Inr (map participantJson
            (sort_key p_joinedAt
               (filter (\<lambda>p. p_eventId p = eventId \<and>
                             list_ex (\<lambda>e. e_id e = p_eventId p \<and> e_expiresAt e > now) (events s))
                  (participants s))))"

section \<open>Manual retry (src/app/api/events/[id]/retry/route.ts)\<close>

definition retryPersist :: "nat \<Rightarrow> string \<Rightarrow> LLMRecommendation list \<Rightarrow> Store \<Rightarrow> Store" where
  \<comment> \<open>the body of \<open>prisma.$transaction\<close>: deleteMany, the creates, the event update\<close>
  "retryPersist now eventId recs s =
     updateEvent (fold (createRecommendation eventId now) recs (deleteManyRecommendations s eventId))
       eventId (\<lambda>e. e\<lparr>e_status := VOTING, e_votingStartedAt := Some now\<rparr>)"

definition retry_POST ::
  "Generator \<Rightarrow> nat \<Rightarrow> string \<Rightarrow> string \<Rightarrow> Store \<Rightarrow> RetryData Response \<times> Store" where
  "retry_POST llm now eventId creatorNickname s =
     (case findUniqueLive s eventId now of
        None \<Rightarrow> (Inl (EVENT_NOT_FOUND, 404), s)
      | Some event \<Rightarrow>
          if e_status event \<noteq> READY then (Inl (EVENT_NOT_READY, 400), s)
          else if length (eventParticipantsByJoinedAt s eventId) \<noteq> e_expectedParticipants event
          then (Inl (PARTICIPANTS_NOT_COMPLETE, 400), s)
          else
            (case find p_isCreator (eventParticipantsByJoinedAt s eventId) of
               None \<Rightarrow> (Inl (NOT_AUTHORIZED, 403), s)
             | Some creator \<Rightarrow>
                 if p_nickname creator \<noteq> creatorNickname then (Inl (NOT_AUTHORIZED, 403), s)
                 else
                   (case llm (buildLLMRequest event (eventParticipantsByJoinedAt s eventId)) of
                      Throws msg \<Rightarrow> (Inl (LLM_ERROR, 503), s)
                    | Returns response \<Rightarrow>
                        (case l_recommendations response of
                           None \<Rightarrow> (Inl (LLM_ERROR, 503), s)
                         | Some recs \<Rightarrow>
                             if length recs > 0
                             then (Inr \<lparr>rd_message = ''Recommendations generated successfully'',
                                        rd_status = VOTING\<rparr>,
                                   retryPersist now eventId recs s)
                             else (Inl (LLM_ERROR, 503), s)))))"


section \<open>Voting (the vote route, POST and DELETE)\<close>

definition voteData :: "Store \<Rightarrow> nat \<Rightarrow> string \<Rightarrow> VoteData" where
  \<comment> \<open>\<open>vote.findMany({where: {recommendationId}})\<close> and the summary built from it\<close>
  "voteData s recommendationId nickname =
     (let vs = filter (\<lambda>v. v_recommendationId v = recommendationId) (votes s);
          voters = map v_voterNickname vs
      in \<lparr>vd_voteCount = length vs, vd_voters = voters,
          vd_hasCurrentUserVoted = (nickname \<in> set voters)\<rparr>)"

text \<open>
  The body of the vote transaction: its result \<open>{alreadyVoted, vote}\<close> and the store
  it commits.
\<close>

definition castVoteTx :: "nat \<Rightarrow> string \<Rightarrow> nat \<Rightarrow> string \<Rightarrow> Store \<Rightarrow> (bool \<times> Vote) \<times> Store" where
  "castVoteTx now eventId recommendationId nickname s =
     (case find (\<lambda>v. v_eventId v = eventId \<and> v_voterNickname v = nickname) (votes s) of
        Some existingVote \<Rightarrow>
          if v_recommendationId existingVote = recommendationId
          then ((True, existingVote), s)
          else
            (let (vote, s') = createVote (deleteVote s (v_id existingVote))
                                recommendationId eventId nickname now
             in ((False, vote), s'))
      | None \<Rightarrow>
          (let (vote, s') = createVote s recommendationId eventId nickname now
           in ((False, vote), s')))"

definition vote_POST :: "nat \<Rightarrow> string \<Rightarrow> nat \<Rightarrow> string \<Rightarrow> Store \<Rightarrow> VoteData Response \<times> Store" where
  "vote_POST now eventId recommendationId nickname s =
     (case findUniqueLive s eventId now of
        None \<Rightarrow> (Inl (EVENT_NOT_FOUND, 404), s)
      | Some event \<Rightarrow>
          if e_status event \<noteq> VOTING then (Inl (VOTING_NOT_STARTED, 403), s)
          else if \<not> list_ex (\<lambda>p. p_nickname p = nickname) (eventParticipants s eventId)
          then (Inl (NOT_PARTICIPANT, 403), s)
          else
            (case find (\<lambda>r. r_id r = recommendationId \<and> r_eventId r = eventId) (recommendations s) of
               None \<Rightarrow> (Inl (EVENT_NOT_FOUND, 404), s)
             | Some recommendation \<Rightarrow>
                 (let (result, s') = castVoteTx now eventId recommendationId nickname s
                  in if fst result then (Inl (ALREADY_VOTED, 409), s')
                     else (Inr (voteData s' recommendationId nickname), s'))))"

definition vote_DELETE :: "nat \<Rightarrow> string \<Rightarrow> nat \<Rightarrow> string \<Rightarrow> Store \<Rightarrow> VoteData Response \<times> Store" where
  "vote_DELETE now eventId recommendationId nickname s =
     (case findUniqueLive s eventId now of
        None \<Rightarrow> (Inl (EVENT_NOT_FOUND, 404), s)
      | Some event \<Rightarrow>
          if e_status event \<noteq> VOTING then (Inl (VOTING_NOT_STARTED, 403), s)
          else if \<not> list_ex (\<lambda>p. p_nickname p = nickname) (eventParticipants s eventId)
          then (Inl (NOT_PARTICIPANT, 403), s)
          else
            (case find (\<lambda>v. v_recommendationId v = recommendationId \<and> v_eventId v = eventId
                             \<and> v_voterNickname v = nickname) (votes s) of
               None \<Rightarrow> (Inl (EVENT_NOT_FOUND, 404), s)
             | Some existingVote \<Rightarrow>
                 (let s' = deleteVote s (v_id existingVote)
                  in (Inr (voteData s' recommendationId nickname), s'))))"

section \<open>Vote summary (src/app/api/events/[id]/votes/route.ts)\<close>

definition recommendationVotes :: "Store \<Rightarrow> Recommendation \<Rightarrow> Vote list" where
  \<comment> \<open>\<open>recommendations: {include: {votes: true}}\<close>\<close>
  "recommendationVotes s rec = filter (\<lambda>v. v_recommendationId v = r_id rec) (votes s)"

definition voteSummary :: "Store \<Rightarrow> string option \<Rightarrow> Recommendation \<Rightarrow> VoteSummary" where
  "voteSummary s currentUserNickname rec =
     (let voters = map v_voterNickname (recommendationVotes s rec)
      in \<lparr>vs_recommendationId = r_id rec,
          vs_locationName = (case r_locationName rec of
                               None \<Rightarrow> ''Unknown Location''
                             | Some n \<Rightarrow> if n = [] then ''Unknown Location'' else n),
          vs_voteCount = length (recommendationVotes s rec),
          vs_voters = voters,
          vs_hasCurrentUserVoted = (case currentUserNickname of
                                      None \<Rightarrow> False
                                    | Some n \<Rightarrow> if n = [] then False else n \<in> set voters)\<rparr>)"

definition votes_GET :: "nat \<Rightarrow> string \<Rightarrow> string option \<Rightarrow> Store \<Rightarrow> VotesData Response" where
  "votes_GET now eventId currentUserNickname s =
     (case findUniqueLive s eventId now of
        None \<Rightarrow> Inl (EVENT_NOT_FOUND, 404)
      | Some event \<Rightarrow>
          (let recs = map (voteSummary s currentUserNickname) (eventRecommendationsByRank s eventId);
               totalVotes = foldl (\<lambda>sum rec. sum + vs_voteCount rec) 0 recs
           in Inr \<lparr>vt_recommendations = recs, vt_totalVotes = totalVotes,
                   vt_participantCount = length (eventParticipants s eventId)\<rparr>))"

section \<open>Finalize, event detail and recommendation list\<close>

definition recommendationJson :: "Recommendation \<Rightarrow> RecommendationJson" where
  "recommendationJson rec =
     \<lparr>rj_id = r_id rec, rj_location_name = r_locationName rec,
      rj_location_type = r_locationType rec, rj_description = r_description rec,
      rj_fairness_analysis = r_fairnessAnalysis rec,
      rj_suitability_score = r_suitabilityScore rec, rj_rank = r_rank rec,
      rj_facilities = r_facilities rec, rj_distances = r_distances rec,
      rj_generated_at = r_generatedAt rec\<rparr>"

definition finalize_POST ::
  "nat \<Rightarrow> string \<Rightarrow> nat \<Rightarrow> string \<Rightarrow> Store \<Rightarrow> FinalizeData Response \<times> Store" where
  "finalize_POST now eventId finalLocationId creatorNickname s =
     (case findUniqueLive s eventId now of
        None \<Rightarrow> (Inl (EVENT_NOT_FOUND, 404), s)
      | Some event \<Rightarrow>
          if e_status event \<noteq> VOTING then (Inl (VOTING_ENDED, 403), s)
          else
            (case filter p_isCreator (eventParticipants s eventId) of
               [] \<Rightarrow> (Inl (NOT_PARTICIPANT, 403), s)
             | creator # others \<Rightarrow>
                 if p_nickname creator \<noteq> creatorNickname then (Inl (NOT_PARTICIPANT, 403), s)
                 else
                   (case filter (\<lambda>r. r_id r = finalLocationId) (eventRecommendations s eventId) of
                      [] \<Rightarrow> (Inl (EVENT_NOT_FOUND, 404), s)
                    | finalLocation # dups \<Rightarrow>
                        (Inr \<lparr>fd_finalLocation = recommendationJson finalLocation,
                              fd_votingEndedAt = now, fd_status = FINALIZED\<rparr>,
                         updateEvent s eventId
                           (\<lambda>e. e\<lparr>e_status := FINALIZED, e_finalLocationId := Some finalLocationId,
                                  e_votingEndedAt := Some now\<rparr>)))))"

definition event_GET :: "nat \<Rightarrow> string \<Rightarrow> Store \<Rightarrow> EventDetailResponse Response" where
  \<comment> \<open>the response carries the rows as stored; \<open>formatRecommendation\<close> only converts
      null fields and the decimal score for JSON\<close>
  "event_GET now eventId s =
     (case findUniqueLive s eventId now of
        None \<Rightarrow> Inl (EVENT_NOT_FOUND, 404)
      | Some event \<Rightarrow>
          Inr \<lparr>ed_event = event,
               ed_participants = eventParticipantsByJoinedAt s eventId,
               ed_recommendations = eventRecommendationsByRank s eventId,
               ed_finalLocation =
                 (case e_finalLocationId event of
                    None \<Rightarrow> None
                  | Some fid \<Rightarrow> find (\<lambda>r. r_id r = fid) (recommendations s))\<rparr>)"

definition recommendations_GET :: "nat \<Rightarrow> string \<Rightarrow> Store \<Rightarrow> RecommendationJson list Response" where
  \<comment> \<open>\<open>recommendation.findMany\<close> with the relation filter \<open>event: {expiresAt: {gt: now}}\<close>\<close>
  "recommendations_GET now eventId s =
     Inr (map recommendationJson
            (sort_key r_rank
               (filter (\<lambda>r. r_eventId r = eventId \<and>
                             list_ex (\<lambda>e. e_id e = r_eventId r \<and> e_expiresAt e > now) (events s))
                  (recommendations s))))"


section \<open>Sample data\<close>

text \<open>
  A two-person event in each phase of its life, used to instantiate the theorems below
  at concrete inputs.
\<close>

definition demoEvent :: Event where
  "demoEvent =
     \<lparr>e_id = ''evt'', e_shortCode = ''ABC123'', e_title = ''Lunch'', e_purpose = Some ''dining'',
      e_eventTime = None, e_specialRequirements = None, e_status = WAITING,
      e_expectedParticipants = 2, e_votingStartedAt = None, e_votingEndedAt = None,
      e_finalLocationId = None, e_createdAt = 100, e_updatedAt = 100, e_expiresAt = 5000\<rparr>"

definition alice :: Participant where
  "alice = \<lparr>p_id = 1, p_eventId = ''evt'', p_nickname = ''Alice'', p_address = ''Addr A'',
             p_isCreator = True, p_joinedAt = 100\<rparr>"

definition bob :: Participant where
  "bob = \<lparr>p_id = 2, p_eventId = ''evt'', p_nickname = ''Bob'', p_address = ''Addr B'',
           p_isCreator = False, p_joinedAt = 200\<rparr>"

definition demoLLMRec :: "nat \<Rightarrow> LLMRecommendation" where
  "demoLLMRec n =
     \<lparr>l_rank = n, l_name = ''Place'', l_type = ''cafe'', l_description = ''Central'',
      l_fairness_analysis = ''Balanced'', l_coordinates = \<lparr>lat = 31, lng = 121\<rparr>,
      l_distances = [], l_facilities = [''wifi''], l_suitability_score = 7\<rparr>"

definition demoRec :: "nat \<Rightarrow> Recommendation" where
  "demoRec n = recommendationData ''evt'' 300 n (demoLLMRec n)"

definition generatorThree :: Generator where
  "generatorThree request =
     Returns \<lparr>l_analysis = Some ''ok'',
              l_recommendations = Some [demoLLMRec 1, demoLLMRec 2, demoLLMRec 3]\<rparr>"

definition generatorOne :: Generator where
  "generatorOne request =
     Returns \<lparr>l_analysis = Some ''ok'', l_recommendations = Some [demoLLMRec 2]\<rparr>"

definition generatorFailing :: Generator where
  "generatorFailing request = Throws ''INVALID_ADDRESSES''"

definition storeWaiting :: Store where
  "storeWaiting =
     \<lparr>events = [demoEvent], participants = [alice], recommendations = [], votes = [],
      nextParticipantId = 2, nextRecommendationId = 1, nextVoteId = 1\<rparr>"

definition storeReady :: Store where
  "storeReady =
     \<lparr>events = [demoEvent\<lparr>e_status := READY\<rparr>], participants = [alice, bob],
      recommendations = [], votes = [],
      nextParticipantId = 3, nextRecommendationId = 1, nextVoteId = 1\<rparr>"

definition storeVoting :: Store where
  "storeVoting =
     \<lparr>events = [demoEvent\<lparr>e_status := VOTING, e_votingStartedAt := Some 300\<rparr>],
      participants = [alice, bob],
      recommendations = [demoRec 1, demoRec 2, demoRec 3], votes = [],
      nextParticipantId = 3, nextRecommendationId = 4, nextVoteId = 1\<rparr>"

definition aliceVote :: Vote where
  "aliceVote = \<lparr>v_id = 1, v_recommendationId = 1, v_eventId = ''evt'',
                 v_voterNickname = ''Alice'', v_votedAt = 400\<rparr>"

definition storeVoted :: Store where
  "storeVoted = storeVoting\<lparr>votes := [aliceVote], nextVoteId := 2\<rparr>"

section \<open>Notions used to state the properties\<close>

definition generationFails :: "LLMOutcome \<Rightarrow> bool" where
  \<comment> \<open>the generator call throws, or the handlers' test
      \<open>recommendations.recommendations && recommendations.recommendations.length > 0\<close> fails\<close>
  "generationFails outcome =
     (case outcome of
        Throws msg \<Rightarrow> True
      | Returns response \<Rightarrow>
          (case l_recommendations response of None \<Rightarrow> True | Some recs \<Rightarrow> \<not> length recs > 0))"

definition eventStatus :: "Store \<Rightarrow> string \<Rightarrow> EventStatus option" where
  "eventStatus s eventId = map_option e_status (findUniqueEvent s eventId)"

definition expiredOrAbsent :: "Store \<Rightarrow> string \<Rightarrow> nat \<Rightarrow> bool" where
  \<comment> \<open>no row of the event table has this id and an \<open>expiresAt\<close> after \<open>now\<close>\<close>
  "expiredOrAbsent s eventId now = list_all (\<lambda>e. e_id e = eventId \<longrightarrow> e_expiresAt e \<le> now) (events s)"

definition withoutEvent :: "Store \<Rightarrow> string \<Rightarrow> Store" where
  \<comment> \<open>the store in which the event does not exist\<close>
  "withoutEvent s eventId = s\<lparr>events := filter (\<lambda>e. e_id e \<noteq> eventId) (events s)\<rparr>"

definition voterKeys :: "Store \<Rightarrow> (string \<times> string) list" where
  "voterKeys s = map (\<lambda>v. (v_eventId v, v_voterNickname v)) (votes s)"

definition voterVotes :: "Store \<Rightarrow> string \<Rightarrow> string \<Rightarrow> Vote list" where
  \<comment> \<open>the live votes with a given (eventId, voterNickname) pair\<close>
  "voterVotes s eventId nickname =
     filter (\<lambda>v. v_eventId v = eventId \<and> v_voterNickname v = nickname) (votes s)"

definition voteIdsFresh :: "Store \<Rightarrow> bool" where
  \<comment> \<open>the vote table's sequence is ahead of every stored id\<close>
  "voteIdsFresh s = list_all (\<lambda>v. v_id v < nextVoteId s) (votes s)"

text \<open>A request to the vote route: \<open>now\<close>, event id, recommendation id, nickname.\<close>

datatype VoteOp = CastVote nat string nat string | RemoveVote nat string nat string

fun applyVoteOp :: "VoteOp \<Rightarrow> Store \<Rightarrow> Store" where
  "applyVoteOp (CastVote now eventId recommendationId nickname) s =
     snd (vote_POST now eventId recommendationId nickname s)"
| "applyVoteOp (RemoveVote now eventId recommendationId nickname) s =
     snd (vote_DELETE now eventId recommendationId nickname s)"

definition runVoteOps :: "VoteOp list \<Rightarrow> Store \<Rightarrow> Store" where
  "runVoteOps ops s = fold applyVoteOp ops s"

definition storeReadyWithOld :: Store where
  \<comment> \<open>a READY event that already holds a recommendation\<close>
  "storeReadyWithOld = storeReady\<lparr>recommendations := [demoRec 1], nextRecommendationId := 2\<rparr>"

definition demoRequest :: LLMRequest where
  "demoRequest =
     \<lparr>q_title = ''Lunch'', q_purpose = ''dining'', q_eventTime = None,
      q_specialRequirements = None,
      q_participants = [\<lparr>q_nickname = ''Alice'', q_address = ''Addr A''\<rparr>,
                        \<lparr>q_nickname = ''Bob'', q_address = ''Addr B''\<rparr>]\<rparr>"

definition storeAfterJoin :: Store where
  \<comment> \<open>the store after Bob has joined the waiting sample event\<close>
  "storeAfterJoin = fst (snd (participants_POST (\<lambda>k. 5) 1000 ''evt'' ''Bob'' ''Addr B'' storeWaiting))"

definition storeAfterRetry :: Store where
  \<comment> \<open>then the creator's manual retry, with a generator that returns three entries\<close>
  "storeAfterRetry = snd (retry_POST generatorThree 1200 ''evt'' ''Alice'' storeAfterJoin)"

section \<open>Properties of the nickname assignment\<close>

lemma toString_two_digits:
  assumes "10 \<le> n" "n \<le> 99"
  shows "toString n = [digitChar (n div 10), digitChar n]"
proof -
  have "n div 10 < 10" using assms by simp
  then have "toString (n div 10) = [digitChar (n div 10)]" by (simp add: toString.simps)
  moreover have "\<not> n < 10" using assms by simp
  ultimately show ?thesis by (subst toString.simps) simp
qed

lemma toString_last2:
  assumes "10 \<le> n"
  shows "slice_neg2 (toString n) = [digitChar (n div 10), digitChar n]"
proof -
  have ne: "\<not> n < 10" using assms by simp
  have step: "toString n = toString (n div 10) @ [digitChar n]"
    by (subst toString.simps) (simp add: ne)
  have "\<exists>pre. toString (n div 10) = pre @ [digitChar (n div 10)]"
    by (subst toString.simps) (simp add: digitChar_def)
  then obtain pre where pre: "toString (n div 10) = pre @ [digitChar (n div 10)]" by blast
  show ?thesis by (simp add: step pre slice_neg2_def)
qed

lemma uniqueNameLoop_spec:
  "(\<exists>k. attempts \<le> k \<and> k < maxAttempts
        \<and> (\<forall>j. attempts \<le> j \<and> j < k \<longrightarrow> candidateName rnd b j \<in> set ex)
        \<and> candidateName rnd b k \<notin> set ex
        \<and> uniqueNameLoop rnd now b ex attempts = candidateName rnd b k)
   \<or> ((\<forall>j. attempts \<le> j \<and> j < maxAttempts \<longrightarrow> candidateName rnd b j \<in> set ex)
        \<and> uniqueNameLoop rnd now b ex attempts = fallbackName now b)"
proof (induction rnd now b ex attempts rule: uniqueNameLoop.induct)
  case (1 rnd now b ex attempts)
  show ?case
  proof (cases "attempts + 1 > maxAttempts")
    case True
    have "uniqueNameLoop rnd now b ex attempts = fallbackName now b"
      using True by (subst uniqueNameLoop.simps) simp
    moreover have "\<forall>j. attempts \<le> j \<and> j < maxAttempts \<longrightarrow> candidateName rnd b j \<in> set ex"
      using True by auto
    ultimately show ?thesis by blast
  next
    case notlast: False
    show ?thesis
    proof (cases "candidateName rnd b attempts \<in> set ex")
      case False
      have "uniqueNameLoop rnd now b ex attempts = candidateName rnd b attempts"
        using notlast False by (subst uniqueNameLoop.simps) simp
      then show ?thesis using notlast False by (intro disjI1 exI[of _ attempts]) auto
    next
      case True
      have eq: "uniqueNameLoop rnd now b ex attempts = uniqueNameLoop rnd now b ex (attempts + 1)"
        using notlast True by (subst uniqueNameLoop.simps) simp
      have step: "\<And>j. attempts \<le> j \<Longrightarrow> j = attempts \<or> attempts + 1 \<le> j" by arith
      from "1.IH"[OF notlast True] show ?thesis
      proof
        assume "\<exists>k. attempts + 1 \<le> k \<and> k < maxAttempts
          \<and> (\<forall>j. attempts + 1 \<le> j \<and> j < k \<longrightarrow> candidateName rnd b j \<in> set ex)
          \<and> candidateName rnd b k \<notin> set ex
          \<and> uniqueNameLoop rnd now b ex (attempts + 1) = candidateName rnd b k"
        then obtain k where k: "attempts + 1 \<le> k" "k < maxAttempts"
          "\<forall>j. attempts + 1 \<le> j \<and> j < k \<longrightarrow> candidateName rnd b j \<in> set ex"
          "candidateName rnd b k \<notin> set ex"
          "uniqueNameLoop rnd now b ex (attempts + 1) = candidateName rnd b k" by blast
        have "\<forall>j. attempts \<le> j \<and> j < k \<longrightarrow> candidateName rnd b j \<in> set ex"
          using k(3) True step by blast
        then show ?thesis using k eq by (intro disjI1 exI[of _ k]) auto
      next
        assume a: "(\<forall>j. attempts + 1 \<le> j \<and> j < maxAttempts \<longrightarrow> candidateName rnd b j \<in> set ex)
          \<and> uniqueNameLoop rnd now b ex (attempts + 1) = fallbackName now b"
        have "\<forall>j. attempts \<le> j \<and> j < maxAttempts \<longrightarrow> candidateName rnd b j \<in> set ex"
          using a True step by blast
        then show ?thesis using a eq by simp
      qed
    qed
  qed
qed

lemma candidateName_two_digits:
  "\<exists>n. 10 \<le> n \<and> n \<le> 99 \<and> candidateName rnd b k = b @ ''_'' @ [digitChar (n div 10), digitChar n]"
proof -
  let ?n = "rnd k mod 90 + 10"
  have "10 \<le> ?n" "?n \<le> 99" by simp_all
  then show ?thesis unfolding candidateName_def using toString_two_digits[of ?n] by (intro exI[of _ ?n]) simp
qed

lemmas demo_defs = demoEvent_def alice_def bob_def demoLLMRec_def demoRec_def generatorThree_def
  generatorOne_def generatorFailing_def storeWaiting_def storeReady_def storeVoting_def
  aliceVote_def storeVoted_def

lemma join_reports_nickname:
  assumes "participants_POST rnd now eventId nickname address s = (Inr d, s', task)"
  shows "jd_assigned_nickname d
           = generateUniqueNickname rnd now nickname (map p_nickname (eventParticipants s eventId))
       \<and> pj_nickname (jd_participant d) = jd_assigned_nickname d
       \<and> jd_nickname_modified d = (jd_assigned_nickname d \<noteq> nickname)
       \<and> jd_original_nickname d = (if jd_nickname_modified d then Some nickname else None)"
  using assms
  by (auto simp: participants_POST_def Let_def createParticipant_def participantJson_def
           split: option.splits if_splits prod.splits)

lemma join_alice_demo:
  "participants_POST (\<lambda>k. 5) 1007 ''evt'' ''Alice'' ''Addr C'' storeWaiting
     = (Inr \<lparr>jd_participant = \<lparr>pj_id = 2, pj_nickname = ''Alice_15'', pj_address = ''Addr C'',
                                 pj_is_creator = False, pj_joined_at = 1007\<rparr>,
              jd_participant_count = 2, jd_should_generate_recommendations = True,
              jd_nickname_modified = True, jd_original_nickname = Some ''Alice'',
              jd_assigned_nickname = ''Alice_15''\<rparr>,
        storeWaiting\<lparr>events := [demoEvent\<lparr>e_status := READY\<rparr>],
                      participants := [alice, \<lparr>p_id = 2, p_eventId = ''evt'', p_nickname = ''Alice_15'',
                         p_address = ''Addr C'', p_isCreator = False, p_joinedAt = 1007\<rparr>],
                      nextParticipantId := 3\<rparr>,
        Some (''evt'', \<lparr>q_title = ''Lunch'', q_purpose = ''dining'', q_eventTime = None,
                q_specialRequirements = None,
                q_participants = [\<lparr>q_nickname = ''Alice'', q_address = ''Addr A''\<rparr>,
                                  \<lparr>q_nickname = ''Alice_15'', q_address = ''Addr C''\<rparr>]\<rparr>))"
  by (simp add: participants_POST_def findUniqueLive_def findUniqueEvent_def eventParticipants_def
      eventParticipantsByJoinedAt_def createParticipant_def updateEvent_def buildLLMRequest_def
      participantJson_def orOther_def orUndefined_def Let_def demo_defs
      generateUniqueNickname_def uniqueNameLoop.simps candidateName_def toString.simps
      digitChar_def maxAttempts_def)

text \<open>
  Claim C9. \<open>generateUniqueNickname\<close> returns the requested nickname unchanged when no
  participant of the event uses it. Otherwise the result is decided by the first 90
  draws: when draw \<open>k\<close> (counted from 0, \<open>k < 90\<close>) is the first whose name is not
  taken, the result is that draw's name, the base name followed by an underscore and the
  two digits of the draw's number, which lies in 10..99; when all 90 draws give taken
  names, the result is the base name followed by an underscore and the last two
  characters of the decimal timestamp (its last two digits once the timestamp has two).
  One of the two cases always holds. The function is total: the loop's recursion is
  bounded by \<open>maxAttempts\<close>. A successful join response carries the assigned nickname
  (also as the participant's nickname), the flag that says whether it differs from the
  requested one, and the requested nickname: as \<open>original_nickname\<close> when it differs,
  and as the assigned nickname itself when it does not.
\<close>

theorem generateUniqueNickname_policy:
  "(baseNickname \<notin> set existingNicknames \<longrightarrow>
      generateUniqueNickname rnd now baseNickname existingNicknames = baseNickname)
   \<and> (baseNickname \<in> set existingNicknames \<longrightarrow>
        (\<exists>k<90. (\<forall>j<k. candidateName rnd baseNickname j \<in> set existingNicknames)
            \<and> candidateName rnd baseNickname k \<notin> set existingNicknames
            \<and> generateUniqueNickname rnd now baseNickname existingNicknames
                = candidateName rnd baseNickname k)
      \<or> ((\<forall>j<90. candidateName rnd baseNickname j \<in> set existingNicknames)
            \<and> generateUniqueNickname rnd now baseNickname existingNicknames
                = baseNickname @ ''_'' @ slice_neg2 (toString now)))
   \<and> (\<forall>k<90. baseNickname \<in> set existingNicknames
            \<and> (\<forall>j<k. candidateName rnd baseNickname j \<in> set existingNicknames)
            \<and> candidateName rnd baseNickname k \<notin> set existingNicknames
          \<longrightarrow> generateUniqueNickname rnd now baseNickname existingNicknames
                = candidateName rnd baseNickname k)
   \<and> (baseNickname \<in> set existingNicknames
        \<and> (\<forall>j<90. candidateName rnd baseNickname j \<in> set existingNicknames)
      \<longrightarrow> generateUniqueNickname rnd now baseNickname existingNicknames
            = baseNickname @ ''_'' @ slice_neg2 (toString now))
   \<and> (\<forall>k. 10 \<le> rnd k mod 90 + 10 \<and> rnd k mod 90 + 10 \<le> 99
          \<and> candidateName rnd baseNickname k
              = baseNickname @ ''_'' @ [digitChar ((rnd k mod 90 + 10) div 10),
                                        digitChar (rnd k mod 90 + 10)])
   \<and> (10 \<le> now \<longrightarrow> slice_neg2 (toString now) = [digitChar (now div 10), digitChar now])
   \<and> (\<forall>d s' task. participants_POST rnd now eventId nickname address s = (Inr d, s', task) \<longrightarrow>
        jd_assigned_nickname d
          = generateUniqueNickname rnd now nickname (map p_nickname (eventParticipants s eventId))
        \<and> pj_nickname (jd_participant d) = jd_assigned_nickname d
        \<and> jd_nickname_modified d = (jd_assigned_nickname d \<noteq> nickname)
        \<and> jd_original_nickname d = (if jd_nickname_modified d then Some nickname else None)
        \<and> (case jd_original_nickname d of Some n \<Rightarrow> n | None \<Rightarrow> jd_assigned_nickname d)
            = nickname)"
proof -
  let ?r = "generateUniqueNickname rnd now baseNickname existingNicknames"
  let ?c = "candidateName rnd baseNickname"
  let ?ex = "set existingNicknames"
  have unused: "?r = baseNickname" if "baseNickname \<notin> ?ex"
    using that by (simp add: generateUniqueNickname_def)
  have cases: "(\<exists>k<90. (\<forall>j<k. ?c j \<in> ?ex) \<and> ?c k \<notin> ?ex \<and> ?r = ?c k)
      \<or> ((\<forall>j<90. ?c j \<in> ?ex) \<and> ?r = baseNickname @ ''_'' @ slice_neg2 (toString now))"
    if used: "baseNickname \<in> ?ex"
  proof -
    have r: "?r = uniqueNameLoop rnd now baseNickname existingNicknames 0"
      using used by (simp add: generateUniqueNickname_def)
    from uniqueNameLoop_spec[of 0 rnd baseNickname existingNicknames now]
    show ?thesis
    proof
      assume "\<exists>k\<ge>0. k < maxAttempts
          \<and> (\<forall>j. 0 \<le> j \<and> j < k \<longrightarrow> ?c j \<in> ?ex)
          \<and> ?c k \<notin> ?ex
          \<and> uniqueNameLoop rnd now baseNickname existingNicknames 0 = ?c k"
      then obtain k where "k < 90" "\<forall>j<k. ?c j \<in> ?ex" "?c k \<notin> ?ex" "?r = ?c k"
        using r by (auto simp: maxAttempts_def)
      then show ?thesis by blast
    next
      assume "(\<forall>j. 0 \<le> j \<and> j < maxAttempts \<longrightarrow> ?c j \<in> ?ex)
          \<and> uniqueNameLoop rnd now baseNickname existingNicknames 0 = fallbackName now baseNickname"
      then show ?thesis using r by (simp add: maxAttempts_def fallbackName_def)
    qed
  qed
  have first: "?r = ?c k"
    if "k < 90" and h: "baseNickname \<in> ?ex \<and> (\<forall>j<k. ?c j \<in> ?ex) \<and> ?c k \<notin> ?ex" for k
  proof -
    from cases h that(1) obtain k' where k': "k' < 90" "\<forall>j<k'. ?c j \<in> ?ex" "?c k' \<notin> ?ex" "?r = ?c k'"
      by blast
    have "\<not> k' < k" using h k'(3) by blast
    moreover have "\<not> k < k'" using h k'(2) by blast
    ultimately have "k' = k" by simp
    with k'(4) show ?thesis by simp
  qed
  have fallback: "?r = baseNickname @ ''_'' @ slice_neg2 (toString now)"
    if "baseNickname \<in> ?ex \<and> (\<forall>j<90. ?c j \<in> ?ex)"
    using cases that by blast
  have digits: "10 \<le> rnd k mod 90 + 10 \<and> rnd k mod 90 + 10 \<le> 99
          \<and> ?c k = baseNickname @ ''_'' @ [digitChar ((rnd k mod 90 + 10) div 10),
                                        digitChar (rnd k mod 90 + 10)]" for k
  proof -
    have b: "10 \<le> rnd k mod 90 + 10" "rnd k mod 90 + 10 \<le> 99" by simp_all
    from toString_two_digits[OF b] b show ?thesis by (simp add: candidateName_def)
  qed
  have last2: "slice_neg2 (toString now) = [digitChar (now div 10), digitChar now]" if "10 \<le> now"
    using that by (rule toString_last2)
  have join: "jd_assigned_nickname d
          = generateUniqueNickname rnd now nickname (map p_nickname (eventParticipants s eventId))
        \<and> pj_nickname (jd_participant d) = jd_assigned_nickname d
        \<and> jd_nickname_modified d = (jd_assigned_nickname d \<noteq> nickname)
        \<and> jd_original_nickname d = (if jd_nickname_modified d then Some nickname else None)
        \<and> (case jd_original_nickname d of Some n \<Rightarrow> n | None \<Rightarrow> jd_assigned_nickname d)
            = nickname"
    if "participants_POST rnd now eventId nickname address s = (Inr d, s', task)" for d s' task
    using join_reports_nickname[OF that] by simp
  from unused cases first fallback digits last2 join show ?thesis by blast
qed

theorem generateUniqueNickname_policy_witness:
  "''Alice'' \<in> set [''Alice'']
   \<and> candidateName (\<lambda>k. 5) ''Alice'' 0 \<notin> set [''Alice'']
   \<and> generateUniqueNickname (\<lambda>k. 5) 1007 ''Alice'' [''Alice''] = ''Alice_15''
   \<and> ''Alice'' \<in> set [''Alice'', ''Alice_15'']
   \<and> candidateName (\<lambda>k. 5) ''Alice'' 0 \<in> set [''Alice'', ''Alice_15'']
   \<and> candidateName (\<lambda>k. 5) ''Alice'' 89 \<in> set [''Alice'', ''Alice_15'']
   \<and> generateUniqueNickname (\<lambda>k. 5) 1007 ''Alice'' [''Alice'', ''Alice_15''] = ''Alice_07''
   \<and> ''Bob'' \<notin> set [''Alice'']
   \<and> generateUniqueNickname (\<lambda>k. 5) 1007 ''Bob'' [''Alice''] = ''Bob''
   \<and> (10::nat) \<le> 1007 \<and> slice_neg2 (toString 1007) = ''07''
   \<and> (\<exists>d s' task. participants_POST (\<lambda>k. 5) 1007 ''evt'' ''Alice'' ''Addr C'' storeWaiting
                       = (Inr d, s', task)
         \<and> jd_assigned_nickname d = ''Alice_15'' \<and> jd_nickname_modified d
         \<and> jd_original_nickname d = Some ''Alice'')"
proof -
  note T = generateUniqueNickname_policy[where baseNickname = "''Alice''"
      and existingNicknames = "[''Alice'']" and rnd = "\<lambda>k. 5" and now = 1007
      and eventId = "''evt''" and nickname = "''Alice''" and address = "''Addr C''"
      and s = storeWaiting]
  note F = generateUniqueNickname_policy[where baseNickname = "''Alice''"
      and existingNicknames = "[''Alice'', ''Alice_15'']" and rnd = "\<lambda>k. 5" and now = 1007]
  note B = generateUniqueNickname_policy[where baseNickname = "''Bob''"
      and existingNicknames = "[''Alice'']" and rnd = "\<lambda>k. 5" and now = 1007]
  have c: "candidateName (\<lambda>k. 5) ''Alice'' j = ''Alice_15''" for j
    by (simp add: candidateName_def toString.simps digitChar_def)
  have h0: "''Alice'' \<in> set [''Alice''] \<and> (\<forall>j<0. candidateName (\<lambda>k. 5) ''Alice'' j \<in> set [''Alice''])
      \<and> candidateName (\<lambda>k. 5) ''Alice'' 0 \<notin> set [''Alice'']"
    by (simp add: c)
  have "\<forall>k<90. ''Alice'' \<in> set [''Alice'']
            \<and> (\<forall>j<k. candidateName (\<lambda>k. 5) ''Alice'' j \<in> set [''Alice''])
            \<and> candidateName (\<lambda>k. 5) ''Alice'' k \<notin> set [''Alice'']
          \<longrightarrow> generateUniqueNickname (\<lambda>k. 5) 1007 ''Alice'' [''Alice'']
                = candidateName (\<lambda>k. 5) ''Alice'' k"
    using T by (elim conjE)
  then have "generateUniqueNickname (\<lambda>k. 5) 1007 ''Alice'' [''Alice'']
                = candidateName (\<lambda>k. 5) ''Alice'' 0"
    using h0 by (metis zero_less_numeral)
  then have g: "generateUniqueNickname (\<lambda>k. 5) 1007 ''Alice'' [''Alice''] = ''Alice_15''"
    by (simp add: c)
  have t0: "(10::nat) \<le> 1007 \<longrightarrow> slice_neg2 (toString 1007) = [digitChar (1007 div 10), digitChar 1007]"
    using T by (elim conjE)
  then have t: "slice_neg2 (toString 1007) = ''07''" by (simp add: digitChar_def)
  have h90: "''Alice'' \<in> set [''Alice'', ''Alice_15'']
      \<and> (\<forall>j<90. candidateName (\<lambda>k. 5) ''Alice'' j \<in> set [''Alice'', ''Alice_15''])"
    by (simp add: c)
  have "''Alice'' \<in> set [''Alice'', ''Alice_15'']
        \<and> (\<forall>j<90. candidateName (\<lambda>k. 5) ''Alice'' j \<in> set [''Alice'', ''Alice_15''])
      \<longrightarrow> generateUniqueNickname (\<lambda>k. 5) 1007 ''Alice'' [''Alice'', ''Alice_15'']
            = ''Alice'' @ ''_'' @ slice_neg2 (toString 1007)"
    by (rule F[THEN conjunct2, THEN conjunct2, THEN conjunct2, THEN conjunct1])
  with h90 have fb: "generateUniqueNickname (\<lambda>k. 5) 1007 ''Alice'' [''Alice'', ''Alice_15''] = ''Alice_07''"
    by (simp add: t)
  have "''Bob'' \<notin> set [''Alice''] \<longrightarrow> generateUniqueNickname (\<lambda>k. 5) 1007 ''Bob'' [''Alice''] = ''Bob''"
    by (rule B[THEN conjunct1])
  then have bob: "''Bob'' \<notin> set [''Alice'']" "generateUniqueNickname (\<lambda>k. 5) 1007 ''Bob'' [''Alice''] = ''Bob''"
    by simp_all
  have J: "\<forall>d s' task. participants_POST (\<lambda>k. 5) 1007 ''evt'' ''Alice'' ''Addr C'' storeWaiting
               = (Inr d, s', task) \<longrightarrow>
        jd_assigned_nickname d
          = generateUniqueNickname (\<lambda>k. 5) 1007 ''Alice'' (map p_nickname (eventParticipants storeWaiting ''evt''))
        \<and> pj_nickname (jd_participant d) = jd_assigned_nickname d
        \<and> jd_nickname_modified d = (jd_assigned_nickname d \<noteq> ''Alice'')
        \<and> jd_original_nickname d = (if jd_nickname_modified d then Some ''Alice'' else None)
        \<and> (case jd_original_nickname d of Some n \<Rightarrow> n | None \<Rightarrow> jd_assigned_nickname d)
            = ''Alice''"
    using T by (elim conjE)
  obtain d s' task where
    j: "participants_POST (\<lambda>k. 5) 1007 ''evt'' ''Alice'' ''Addr C'' storeWaiting = (Inr d, s', task)"
    using join_alice_demo by blast
  have ex: "map p_nickname (eventParticipants storeWaiting ''evt'') = [''Alice'']"
    by (simp add: eventParticipants_def storeWaiting_def alice_def)
  from J j have
    "jd_assigned_nickname d
       = generateUniqueNickname (\<lambda>k. 5) 1007 ''Alice'' (map p_nickname (eventParticipants storeWaiting ''evt''))"
    "jd_nickname_modified d = (jd_assigned_nickname d \<noteq> ''Alice'')"
    "jd_original_nickname d = (if jd_nickname_modified d then Some ''Alice'' else None)"
    by blast+
  then have "jd_assigned_nickname d = ''Alice_15''" "jd_nickname_modified d"
    "jd_original_nickname d = Some ''Alice''"
    by (simp_all add: ex g)
  with j have jex: "\<exists>d s' task. participants_POST (\<lambda>k. 5) 1007 ''evt'' ''Alice'' ''Addr C'' storeWaiting
                       = (Inr d, s', task)
         \<and> jd_assigned_nickname d = ''Alice_15'' \<and> jd_nickname_modified d
         \<and> jd_original_nickname d = Some ''Alice''"
    by blast
  have ten: "(10::nat) \<le> 1007" by simp
  have c0: "candidateName (\<lambda>k. 5) ''Alice'' 0 \<in> set [''Alice'', ''Alice_15'']"
    and c89: "candidateName (\<lambda>k. 5) ''Alice'' 89 \<in> set [''Alice'', ''Alice_15'']"
    by (simp_all add: c)
  from h0 g h90 c0 c89 fb bob ten t jex show ?thesis by (intro conjI) blast+
qed

section \<open>Properties of joining\<close>

lemma find_map_if:
  assumes "\<And>x. P (f x) = P x"
  shows "find P (map f xs) = map_option f (find P xs)"
  using assms by (induction xs) auto

lemma findUniqueLive_id: "findUniqueLive s eventId now = Some event \<Longrightarrow> e_id event = eventId"
  by (auto simp: findUniqueLive_def find_Some_iff)

lemma findUniqueEvent_of_live:
  "findUniqueLive s eventId now = Some event \<Longrightarrow> \<exists>e. findUniqueEvent s eventId = Some e"
  by (cases "findUniqueEvent s eventId")
     (auto simp: findUniqueLive_def findUniqueEvent_def find_None_iff find_Some_iff)

lemma findUniqueLive_updateEvent:
  assumes "findUniqueLive s eventId now = Some event"
    and "\<And>e. e_id (f e) = e_id e" "\<And>e. e_expiresAt (f e) = e_expiresAt e"
  shows "findUniqueLive (updateEvent s eventId f) eventId now = Some (f event)"
proof -
  let ?g = "\<lambda>e. if e_id e = eventId then f e else e"
  have "find (\<lambda>e. e_id e = eventId \<and> now < e_expiresAt e) (map ?g (events s))
          = map_option ?g (find (\<lambda>e. e_id e = eventId \<and> now < e_expiresAt e) (events s))"
    by (rule find_map_if) (simp add: assms(2,3))
  then show ?thesis
    using assms(1) findUniqueLive_id[OF assms(1)] by (simp add: findUniqueLive_def updateEvent_def)
qed

lemma join_rejected:
  assumes "findUniqueLive s eventId now = Some event"
    and "e_status event \<noteq> WAITING \<or> length (eventParticipants s eventId) \<ge> e_expectedParticipants event"
  shows "participants_POST rnd now eventId nickname address s = (Inl (EVENT_FULL, 403), s, None)"
  using assms by (auto simp: participants_POST_def)

lemma join_threshold:
  assumes live: "findUniqueLive s eventId now = Some event"
    and waiting: "e_status event = WAITING"
    and last: "length (eventParticipants s eventId) + 1 = e_expectedParticipants event"
    and two: "2 \<le> e_expectedParticipants event"
  shows "\<exists>d s' request.
           participants_POST rnd now eventId nickname address s = (Inr d, s', Some (eventId, request))
         \<and> jd_participant_count d = e_expectedParticipants event
         \<and> jd_should_generate_recommendations d
         \<and> findUniqueLive s' eventId now = Some (event\<lparr>e_status := READY\<rparr>)
         \<and> length (eventParticipants s' eventId) = e_expectedParticipants event
         \<and> q_participants request
             = map (\<lambda>p. \<lparr>q_nickname = p_nickname p, q_address = p_address p\<rparr>)
                 (eventParticipantsByJoinedAt s' eventId)"
proof -
  let ?assigned = "generateUniqueNickname rnd now nickname (map p_nickname (eventParticipants s eventId))"
  let ?p = "\<lparr>p_id = nextParticipantId s, p_eventId = eventId, p_nickname = ?assigned,
             p_address = address, p_isCreator = False, p_joinedAt = now\<rparr>"
  let ?s1 = "s\<lparr>participants := participants s @ [?p], nextParticipantId := nextParticipantId s + 1\<rparr>"
  let ?s2 = "updateEvent ?s1 eventId (\<lambda>e. e\<lparr>e_status := READY\<rparr>)"
  have live1: "findUniqueLive ?s1 eventId now = Some event"
    using live by (simp add: findUniqueLive_def)
  have live2: "findUniqueLive ?s2 eventId now = Some (event\<lparr>e_status := READY\<rparr>)"
    by (rule findUniqueLive_updateEvent[OF live1]) simp_all
  obtain full where full: "findUniqueEvent ?s2 eventId = Some full"
    using findUniqueEvent_of_live[OF live2] by blast
  have ps2: "eventParticipants ?s2 eventId = eventParticipants s eventId @ [?p]"
    by (simp add: eventParticipants_def updateEvent_def)
  have len2: "length (eventParticipants ?s2 eventId) = e_expectedParticipants event"
    using last by (simp add: eventParticipants_def updateEvent_def)
  have ge2: "length (eventParticipantsByJoinedAt ?s2 eventId) \<ge> 2"
    using len2 two by (simp add: eventParticipantsByJoinedAt_def)
  have nfull: "\<not> e_expectedParticipants event \<le> length (eventParticipants s eventId)"
    using last by simp
  have "participants_POST rnd now eventId nickname address s
          = (Inr \<lparr>jd_participant = participantJson ?p,
                   jd_participant_count = length (eventParticipants s eventId) + 1,
                   jd_should_generate_recommendations = True,
                   jd_nickname_modified = (nickname \<noteq> ?assigned),
                   jd_original_nickname = (if nickname \<noteq> ?assigned then Some nickname else None),
                   jd_assigned_nickname = ?assigned\<rparr>,
             ?s2,
             Some (eventId, buildLLMRequest full (eventParticipantsByJoinedAt ?s2 eventId)))"
    using live waiting nfull last full ge2
    by (simp add: participants_POST_def Let_def createParticipant_def)
  then show ?thesis
    using live2 len2 last by (simp add: buildLLMRequest_def)
qed

text \<open>
  Claim C4. For a live event, a join is rejected with \<open>EVENT_FULL\<close> (HTTP 403), leaving
  the store as it was and scheduling nothing, whenever the status is not WAITING or the
  participant count has reached \<open>expectedParticipants\<close>. A join into a WAITING event
  that holds \<open>expectedParticipants - 1\<close> participants succeeds, reports the new count
  and \<open>should_generate_recommendations\<close>, leaves the event READY with exactly
  \<open>expectedParticipants\<close> participants, and schedules the generation task for this
  event with all participants in join order. Events have \<open>expectedParticipants \<ge> 2\<close>,
  as the creation schema enforces.
\<close>

theorem join_admission:
  assumes "findUniqueLive s eventId now = Some event"
  shows "(e_status event \<noteq> WAITING
            \<or> e_expectedParticipants event \<le> length (eventParticipants s eventId)
          \<longrightarrow> participants_POST rnd now eventId nickname address s
                = (Inl (EVENT_FULL, 403), s, None))
       \<and> (e_status event = WAITING
            \<and> length (eventParticipants s eventId) + 1 = e_expectedParticipants event
            \<and> 2 \<le> e_expectedParticipants event
          \<longrightarrow> (\<exists>d s' request.
                 participants_POST rnd now eventId nickname address s
                   = (Inr d, s', Some (eventId, request))
               \<and> jd_participant_count d = e_expectedParticipants event
               \<and> jd_should_generate_recommendations d
               \<and> findUniqueLive s' eventId now = Some (event\<lparr>e_status := READY\<rparr>)
               \<and> length (eventParticipants s' eventId) = e_expectedParticipants event
               \<and> q_participants request
                   = map (\<lambda>p. \<lparr>q_nickname = p_nickname p, q_address = p_address p\<rparr>)
                       (eventParticipantsByJoinedAt s' eventId)))"
proof (intro conjI impI)
  assume "e_status event \<noteq> WAITING
            \<or> e_expectedParticipants event \<le> length (eventParticipants s eventId)"
  then show "participants_POST rnd now eventId nickname address s = (Inl (EVENT_FULL, 403), s, None)"
    using assms by (intro join_rejected) auto
next
  assume "e_status event = WAITING
            \<and> length (eventParticipants s eventId) + 1 = e_expectedParticipants event
            \<and> 2 \<le> e_expectedParticipants event"
  then show "\<exists>d s' request.
                 participants_POST rnd now eventId nickname address s
                   = (Inr d, s', Some (eventId, request))
               \<and> jd_participant_count d = e_expectedParticipants event
               \<and> jd_should_generate_recommendations d
               \<and> findUniqueLive s' eventId now = Some (event\<lparr>e_status := READY\<rparr>)
               \<and> length (eventParticipants s' eventId) = e_expectedParticipants event
               \<and> q_participants request
                   = map (\<lambda>p. \<lparr>q_nickname = p_nickname p, q_address = p_address p\<rparr>)
                       (eventParticipantsByJoinedAt s' eventId)"
    using join_threshold[OF assms] by blast
qed

theorem join_admission_witness:
  "findUniqueLive storeReady ''evt'' 1000 = Some (demoEvent\<lparr>e_status := READY\<rparr>)
   \<and> e_status (demoEvent\<lparr>e_status := READY\<rparr>) \<noteq> WAITING
   \<and> participants_POST (\<lambda>k. 5) 1000 ''evt'' ''Carol'' ''Addr C'' storeReady
        = (Inl (EVENT_FULL, 403), storeReady, None)
   \<and> findUniqueLive storeWaiting ''evt'' 1000 = Some demoEvent
   \<and> e_status demoEvent = WAITING
   \<and> length (eventParticipants storeWaiting ''evt'') + 1 = e_expectedParticipants demoEvent
   \<and> 2 \<le> e_expectedParticipants demoEvent
   \<and> (\<exists>d s' request.
         participants_POST (\<lambda>k. 5) 1000 ''evt'' ''Bob'' ''Addr B'' storeWaiting
           = (Inr d, s', Some (''evt'', request))
         \<and> jd_participant_count d = 2
         \<and> findUniqueLive s' ''evt'' 1000 = Some (demoEvent\<lparr>e_status := READY\<rparr>))"
proof -
  have l1: "findUniqueLive storeReady ''evt'' 1000 = Some (demoEvent\<lparr>e_status := READY\<rparr>)"
    by (simp add: findUniqueLive_def storeReady_def demoEvent_def)
  have l2: "findUniqueLive storeWaiting ''evt'' 1000 = Some demoEvent"
    by (simp add: findUniqueLive_def storeWaiting_def demoEvent_def)
  have h1: "e_status (demoEvent\<lparr>e_status := READY\<rparr>) \<noteq> WAITING" by simp
  have h2: "e_status demoEvent = WAITING
            \<and> length (eventParticipants storeWaiting ''evt'') + 1 = e_expectedParticipants demoEvent
            \<and> 2 \<le> e_expectedParticipants demoEvent"
    by (simp add: eventParticipants_def storeWaiting_def demoEvent_def alice_def)
  have e2: "e_expectedParticipants demoEvent = 2" by (simp add: demoEvent_def)
  from join_admission[OF l1, of "\<lambda>k. 5" "''Carol''" "''Addr C''"] h1
  have r1: "participants_POST (\<lambda>k. 5) 1000 ''evt'' ''Carol'' ''Addr C'' storeReady
        = (Inl (EVENT_FULL, 403), storeReady, None)" by blast
  from join_admission[OF l2, of "\<lambda>k. 5" "''Bob''" "''Addr B''"] h2
  have r2: "\<exists>d s' request.
         participants_POST (\<lambda>k. 5) 1000 ''evt'' ''Bob'' ''Addr B'' storeWaiting
           = (Inr d, s', Some (''evt'', request))
         \<and> jd_participant_count d = 2
         \<and> findUniqueLive s' ''evt'' 1000 = Some (demoEvent\<lparr>e_status := READY\<rparr>)"
    unfolding e2 by blast
  from l1 h1 r1 l2 h2 r2 show ?thesis by blast
qed

section \<open>Properties of the manual retry's preconditions\<close>

lemma length_eventParticipantsByJoinedAt:
  "length (eventParticipantsByJoinedAt s eventId) = length (eventParticipants s eventId)"
  by (simp add: eventParticipantsByJoinedAt_def)

lemma retry_accepted:
  assumes "findUniqueLive s eventId now = Some event"
    and "e_status event = READY"
    and "length (eventParticipants s eventId) = e_expectedParticipants event"
    and "map_option p_nickname (find p_isCreator (eventParticipantsByJoinedAt s eventId))
           = Some creatorNickname"
  shows "retry_POST llm now eventId creatorNickname s =
           (case llm (buildLLMRequest event (eventParticipantsByJoinedAt s eventId)) of
              Throws msg \<Rightarrow> (Inl (LLM_ERROR, 503), s)
            | Returns response \<Rightarrow>
                (case l_recommendations response of
                   None \<Rightarrow> (Inl (LLM_ERROR, 503), s)
                 | Some recs \<Rightarrow>
                     if length recs > 0
                     then (Inr \<lparr>rd_message = ''Recommendations generated successfully'',
                                rd_status = VOTING\<rparr>,
                           retryPersist now eventId recs s)
                     else (Inl (LLM_ERROR, 503), s)))"
  using assms
  by (auto simp: retry_POST_def length_eventParticipantsByJoinedAt split: option.splits)

lemma retry_not_ready:
  assumes "findUniqueLive s eventId now = Some event" and "e_status event \<noteq> READY"
  shows "retry_POST llm now eventId creatorNickname s = (Inl (EVENT_NOT_READY, 400), s)"
  using assms by (simp add: retry_POST_def)

lemma retry_incomplete:
  assumes "findUniqueLive s eventId now = Some event" and "e_status event = READY"
    and "length (eventParticipants s eventId) \<noteq> e_expectedParticipants event"
  shows "retry_POST llm now eventId creatorNickname s = (Inl (PARTICIPANTS_NOT_COMPLETE, 400), s)"
  using assms by (simp add: retry_POST_def length_eventParticipantsByJoinedAt)

lemma retry_not_authorized:
  assumes "findUniqueLive s eventId now = Some event" and "e_status event = READY"
    and "length (eventParticipants s eventId) = e_expectedParticipants event"
    and "map_option p_nickname (find p_isCreator (eventParticipantsByJoinedAt s eventId))
           \<noteq> Some creatorNickname"
  shows "retry_POST llm now eventId creatorNickname s = (Inl (NOT_AUTHORIZED, 403), s)"
  using assms
  by (auto simp: retry_POST_def length_eventParticipantsByJoinedAt split: option.splits)

lemma retry_success_only_if:
  assumes "retry_POST llm now eventId creatorNickname s = (Inr d, s')"
  shows "\<exists>event. findUniqueLive s eventId now = Some event \<and> e_status event = READY
           \<and> length (eventParticipants s eventId) = e_expectedParticipants event
           \<and> map_option p_nickname (find p_isCreator (eventParticipantsByJoinedAt s eventId))
                = Some creatorNickname"
  using assms
  by (auto simp: retry_POST_def length_eventParticipantsByJoinedAt
           split: option.splits if_splits LLMOutcome.splits)

text \<open>
  Claim C7. For a live event the manual retry goes on to the generator exactly when the
  status is READY, the participant count equals \<open>expectedParticipants\<close> and the supplied
  nickname is that of the event's creator. The checks run in this order: a status other
  than READY gives \<open>EVENT_NOT_READY\<close> (400), an incomplete count gives
  \<open>PARTICIPANTS_NOT_COMPLETE\<close> (400), neither of them an authorization error; with both
  satisfied, a nickname that is not the creator's gives \<open>NOT_AUTHORIZED\<close> (403). No
  rejection writes to the store, and a successful response is possible only when all
  three conditions hold.
\<close>

theorem retry_preconditions:
  assumes "findUniqueLive s eventId now = Some event"
  shows "(e_status event \<noteq> READY
            \<longrightarrow> retry_POST llm now eventId creatorNickname s = (Inl (EVENT_NOT_READY, 400), s))
       \<and> (e_status event = READY
            \<and> length (eventParticipants s eventId) \<noteq> e_expectedParticipants event
            \<longrightarrow> retry_POST llm now eventId creatorNickname s
                  = (Inl (PARTICIPANTS_NOT_COMPLETE, 400), s))
       \<and> (e_status event = READY
            \<and> length (eventParticipants s eventId) = e_expectedParticipants event
            \<and> map_option p_nickname (find p_isCreator (eventParticipantsByJoinedAt s eventId))
                 \<noteq> Some creatorNickname
            \<longrightarrow> retry_POST llm now eventId creatorNickname s = (Inl (NOT_AUTHORIZED, 403), s))
       \<and> (e_status event = READY
            \<and> length (eventParticipants s eventId) = e_expectedParticipants event
            \<and> map_option p_nickname (find p_isCreator (eventParticipantsByJoinedAt s eventId))
                 = Some creatorNickname
            \<longrightarrow> fst (retry_POST llm now eventId creatorNickname s)
                  = (if generationFails (llm (buildLLMRequest event (eventParticipantsByJoinedAt s eventId)))
                     then Inl (LLM_ERROR, 503)
                     else Inr \<lparr>rd_message = ''Recommendations generated successfully'',
                               rd_status = VOTING\<rparr>))
       \<and> ((\<exists>d. fst (retry_POST llm now eventId creatorNickname s) = Inr d)
            \<longrightarrow> e_status event = READY
                \<and> length (eventParticipants s eventId) = e_expectedParticipants event
                \<and> map_option p_nickname (find p_isCreator (eventParticipantsByJoinedAt s eventId))
                     = Some creatorNickname)"
proof (intro conjI impI)
  assume "e_status event \<noteq> READY"
  then show "retry_POST llm now eventId creatorNickname s = (Inl (EVENT_NOT_READY, 400), s)"
    using assms by (rule retry_not_ready[rotated])
next
  assume "e_status event = READY
            \<and> length (eventParticipants s eventId) \<noteq> e_expectedParticipants event"
  then show "retry_POST llm now eventId creatorNickname s = (Inl (PARTICIPANTS_NOT_COMPLETE, 400), s)"
    using assms retry_incomplete by blast
next
  assume "e_status event = READY
            \<and> length (eventParticipants s eventId) = e_expectedParticipants event
            \<and> map_option p_nickname (find p_isCreator (eventParticipantsByJoinedAt s eventId))
                 \<noteq> Some creatorNickname"
  then show "retry_POST llm now eventId creatorNickname s = (Inl (NOT_AUTHORIZED, 403), s)"
    using assms retry_not_authorized by blast
next
  assume a: "e_status event = READY
            \<and> length (eventParticipants s eventId) = e_expectedParticipants event
            \<and> map_option p_nickname (find p_isCreator (eventParticipantsByJoinedAt s eventId))
                 = Some creatorNickname"
  show "fst (retry_POST llm now eventId creatorNickname s)
          = (if generationFails (llm (buildLLMRequest event (eventParticipantsByJoinedAt s eventId)))
             then Inl (LLM_ERROR, 503)
             else Inr \<lparr>rd_message = ''Recommendations generated successfully'', rd_status = VOTING\<rparr>)"
    using a by (simp add: retry_accepted[OF assms] generationFails_def
                     split: LLMOutcome.splits option.splits)
next
  assume "\<exists>d. fst (retry_POST llm now eventId creatorNickname s) = Inr d"
  then obtain d s' where "retry_POST llm now eventId creatorNickname s = (Inr d, s')"
    by (metis prod.collapse)
  from retry_success_only_if[OF this] assms
  show "e_status event = READY"
    "length (eventParticipants s eventId) = e_expectedParticipants event"
    "map_option p_nickname (find p_isCreator (eventParticipantsByJoinedAt s eventId))
       = Some creatorNickname"
    by auto
qed

lemma demo_ready_participants:
  "eventParticipants storeReady ''evt'' = [alice, bob]"
  "eventParticipantsByJoinedAt storeReady ''evt'' = [alice, bob]"
  by (simp_all add: eventParticipantsByJoinedAt_def eventParticipants_def storeReady_def
        alice_def bob_def)

lemma demo_ready_live:
  "findUniqueLive storeReady ''evt'' 1000 = Some (demoEvent\<lparr>e_status := READY\<rparr>)"
  by (simp add: findUniqueLive_def storeReady_def demoEvent_def)

lemma demo_voting_live:
  "findUniqueLive storeVoting ''evt'' 1000
     = Some (demoEvent\<lparr>e_status := VOTING, e_votingStartedAt := Some 300\<rparr>)"
  by (simp add: findUniqueLive_def storeVoting_def demoEvent_def)

lemma demo_ready_creator:
  "map_option p_nickname (find p_isCreator (eventParticipantsByJoinedAt storeReady ''evt''))
     = Some ''Alice''"
  by (simp add: demo_ready_participants alice_def)

theorem retry_preconditions_witness:
  "findUniqueLive storeVoting ''evt'' 1000
     = Some (demoEvent\<lparr>e_status := VOTING, e_votingStartedAt := Some 300\<rparr>)
   \<and> retry_POST generatorThree 1000 ''evt'' ''Alice'' storeVoting
        = (Inl (EVENT_NOT_READY, 400), storeVoting)
   \<and> findUniqueLive storeReady ''evt'' 1000 = Some (demoEvent\<lparr>e_status := READY\<rparr>)
   \<and> length (eventParticipants storeReady ''evt'')
        = e_expectedParticipants (demoEvent\<lparr>e_status := READY\<rparr>)
   \<and> map_option p_nickname (find p_isCreator (eventParticipantsByJoinedAt storeReady ''evt''))
        \<noteq> Some ''Bob''
   \<and> retry_POST generatorThree 1000 ''evt'' ''Bob'' storeReady
        = (Inl (NOT_AUTHORIZED, 403), storeReady)
   \<and> map_option p_nickname (find p_isCreator (eventParticipantsByJoinedAt storeReady ''evt''))
        = Some ''Alice''
   \<and> fst (retry_POST generatorThree 1000 ''evt'' ''Alice'' storeReady)
        = Inr \<lparr>rd_message = ''Recommendations generated successfully'', rd_status = VOTING\<rparr>
   \<and> fst (retry_POST generatorFailing 1000 ''evt'' ''Alice'' storeReady) = Inl (LLM_ERROR, 503)
   \<and> findUniqueLive (storeWaiting\<lparr>events := [demoEvent\<lparr>e_status := READY\<rparr>]\<rparr>) ''evt'' 1000
        = Some (demoEvent\<lparr>e_status := READY\<rparr>)
   \<and> length (eventParticipants (storeWaiting\<lparr>events := [demoEvent\<lparr>e_status := READY\<rparr>]\<rparr>) ''evt'')
        \<noteq> e_expectedParticipants (demoEvent\<lparr>e_status := READY\<rparr>)
   \<and> retry_POST generatorThree 1000 ''evt'' ''Alice''
          (storeWaiting\<lparr>events := [demoEvent\<lparr>e_status := READY\<rparr>]\<rparr>)
        = (Inl (PARTICIPANTS_NOT_COMPLETE, 400),
           storeWaiting\<lparr>events := [demoEvent\<lparr>e_status := READY\<rparr>]\<rparr>)"
proof -
  let ?short = "storeWaiting\<lparr>events := [demoEvent\<lparr>e_status := READY\<rparr>]\<rparr>"
  have ls: "findUniqueLive ?short ''evt'' 1000 = Some (demoEvent\<lparr>e_status := READY\<rparr>)"
    by (simp add: findUniqueLive_def storeWaiting_def demoEvent_def)
  have lens: "length (eventParticipants ?short ''evt'')
        \<noteq> e_expectedParticipants (demoEvent\<lparr>e_status := READY\<rparr>)"
    by (simp add: eventParticipants_def storeWaiting_def demoEvent_def alice_def)
  note S = retry_preconditions[OF ls, of generatorThree "''Alice''"]
  note V = retry_preconditions[OF demo_voting_live, of generatorThree "''Alice''"]
  note B = retry_preconditions[OF demo_ready_live, of generatorThree "''Bob''"]
  note A = retry_preconditions[OF demo_ready_live, of generatorThree "''Alice''"]
  note F = retry_preconditions[OF demo_ready_live, of generatorFailing "''Alice''"]
  have st: "e_status (demoEvent\<lparr>e_status := READY\<rparr>) = READY"
    "e_status (demoEvent\<lparr>e_status := VOTING, e_votingStartedAt := Some 300\<rparr>) \<noteq> READY"
    by simp_all
  have len: "length (eventParticipants storeReady ''evt'')
        = e_expectedParticipants (demoEvent\<lparr>e_status := READY\<rparr>)"
    by (simp add: demo_ready_participants demoEvent_def)
  have nb: "map_option p_nickname (find p_isCreator (eventParticipantsByJoinedAt storeReady ''evt''))
        \<noteq> Some ''Bob''"
    by (simp add: demo_ready_creator)
  have g3: "\<not> generationFails (generatorThree r)" for r
    by (simp add: generationFails_def generatorThree_def)
  have gf: "generationFails (generatorFailing r)" for r
    by (simp add: generationFails_def generatorFailing_def)
  from V st(2) have r1: "retry_POST generatorThree 1000 ''evt'' ''Alice'' storeVoting
        = (Inl (EVENT_NOT_READY, 400), storeVoting)" by blast
  from B st(1) len nb have r2: "retry_POST generatorThree 1000 ''evt'' ''Bob'' storeReady
        = (Inl (NOT_AUTHORIZED, 403), storeReady)" by blast
  from A st(1) len demo_ready_creator have r3:
    "fst (retry_POST generatorThree 1000 ''evt'' ''Alice'' storeReady)
      = (if generationFails (generatorThree (buildLLMRequest (demoEvent\<lparr>e_status := READY\<rparr>)
              (eventParticipantsByJoinedAt storeReady ''evt'')))
         then Inl (LLM_ERROR, 503)
         else Inr \<lparr>rd_message = ''Recommendations generated successfully'', rd_status = VOTING\<rparr>)"
    by blast
  from F st(1) len demo_ready_creator have r4:
    "fst (retry_POST generatorFailing 1000 ''evt'' ''Alice'' storeReady)
      = (if generationFails (generatorFailing (buildLLMRequest (demoEvent\<lparr>e_status := READY\<rparr>)
              (eventParticipantsByJoinedAt storeReady ''evt'')))
         then Inl (LLM_ERROR, 503)
         else Inr \<lparr>rd_message = ''Recommendations generated successfully'', rd_status = VOTING\<rparr>)"
    by blast
  have r3': "fst (retry_POST generatorThree 1000 ''evt'' ''Alice'' storeReady)
        = Inr \<lparr>rd_message = ''Recommendations generated successfully'', rd_status = VOTING\<rparr>"
    using r3 by (simp add: g3)
  have r4': "fst (retry_POST generatorFailing 1000 ''evt'' ''Alice'' storeReady) = Inl (LLM_ERROR, 503)"
    using r4 by (simp add: gf)
  from S st(1) lens have r5: "retry_POST generatorThree 1000 ''evt'' ''Alice'' ?short
        = (Inl (PARTICIPANTS_NOT_COMPLETE, 400), ?short)" by blast
  from demo_voting_live r1 demo_ready_live len nb r2 demo_ready_creator r3' r4' ls lens r5
  show ?thesis by (intro conjI)
qed

section \<open>Properties of failed generation\<close>

lemma updateEvent_frame:
  "participants (updateEvent s eventId f) = participants s"
  "recommendations (updateEvent s eventId f) = recommendations s"
  "votes (updateEvent s eventId f) = votes s"
  "nextParticipantId (updateEvent s eventId f) = nextParticipantId s"
  "nextRecommendationId (updateEvent s eventId f) = nextRecommendationId s"
  "nextVoteId (updateEvent s eventId f) = nextVoteId s"
  by (simp_all add: updateEvent_def)

lemma runGenerationTask_fails:
  assumes "generationFails (llm request)"
  shows "runGenerationTask llm now (eventId, request) s
           = (case llm request of
                Throws msg \<Rightarrow> updateEvent s eventId (\<lambda>e. e\<lparr>e_updatedAt := now\<rparr>)
              | Returns response \<Rightarrow> s)"
  using assms
  by (auto simp: runGenerationTask_def generationFails_def split: LLMOutcome.splits option.splits)

lemma runGenerationTask_fails_frame:
  assumes "generationFails (llm request)"
  shows "participants (runGenerationTask llm now (eventId, request) s) = participants s"
    and "recommendations (runGenerationTask llm now (eventId, request) s) = recommendations s"
    and "votes (runGenerationTask llm now (eventId, request) s) = votes s"
    and "map (\<lambda>e. e\<lparr>e_updatedAt := 0\<rparr>) (events (runGenerationTask llm now (eventId, request) s))
           = map (\<lambda>e. e\<lparr>e_updatedAt := 0\<rparr>) (events s)"
    and "map e_status (events (runGenerationTask llm now (eventId, request) s))
           = map e_status (events s)"
  using assms
  by (auto simp: runGenerationTask_fails updateEvent_def split: LLMOutcome.splits)

lemma runGenerationTask_throws:
  assumes "llm request = Throws msg"
  shows "events (runGenerationTask llm now (eventId, request) s)
           = map (\<lambda>e. if e_id e = eventId then e\<lparr>e_updatedAt := now\<rparr> else e) (events s)"
  using assms by (simp add: runGenerationTask_def updateEvent_def)

lemma find_map_status:
  assumes "\<And>e. e_id (g e) = e_id e" "\<And>e. e_status (g e) = e_status e"
  shows "map_option e_status (find (\<lambda>e. e_id e = x) (map g xs))
           = map_option e_status (find (\<lambda>e. e_id e = x) xs)"
  by (induction xs) (simp_all add: assms)

lemma eventStatus_fails:
  assumes "generationFails (llm request)"
  shows "eventStatus (runGenerationTask llm now (eventId', request) s) eventId = eventStatus s eventId"
proof -
  let ?g = "\<lambda>e. if e_id e = eventId' then e\<lparr>e_updatedAt := now\<rparr> else e"
  have "map_option e_status (find (\<lambda>e. e_id e = eventId) (map ?g (events s)))
          = map_option e_status (find (\<lambda>e. e_id e = eventId) (events s))"
    by (rule find_map_status) simp_all
  then have "eventStatus (updateEvent s eventId' (\<lambda>e. e\<lparr>e_updatedAt := now\<rparr>)) eventId
               = eventStatus s eventId"
    by (simp add: eventStatus_def findUniqueEvent_def updateEvent_def)
  then show ?thesis
    using assms by (simp add: runGenerationTask_fails split: LLMOutcome.splits)
qed

lemma eventStatus_updateEvent_status:
  assumes "findUniqueEvent (updateEvent s eventId (\<lambda>e. e\<lparr>e_status := st\<rparr>)) eventId = Some full"
  shows "eventStatus (updateEvent s eventId (\<lambda>e. e\<lparr>e_status := st\<rparr>)) eventId = Some st"
proof -
  let ?g = "\<lambda>e. if e_id e = eventId then e\<lparr>e_status := st\<rparr> else e"
  have "find (\<lambda>e. e_id e = eventId) (map ?g (events s))
          = map_option ?g (find (\<lambda>e. e_id e = eventId) (events s))"
    by (rule find_map_if) simp
  with assms obtain e where e: "find (\<lambda>e. e_id e = eventId) (events s) = Some e" "full = ?g e"
    by (auto simp: findUniqueEvent_def updateEvent_def)
  then have "e_id e = eventId" by (auto simp: find_Some_iff)
  with e assms show ?thesis by (simp add: eventStatus_def)
qed

lemma join_task_scheduled:
  assumes "participants_POST rnd now eventId nickname address s = (r, s1, Some task)"
  shows "(\<exists>d. r = Inr d) \<and> fst task = eventId \<and> eventStatus s1 eventId = Some READY
         \<and> recommendations s1 = recommendations s \<and> votes s1 = votes s"
proof -
  let ?assigned = "generateUniqueNickname rnd now nickname (map p_nickname (eventParticipants s eventId))"
  let ?p = "\<lparr>p_id = nextParticipantId s, p_eventId = eventId, p_nickname = ?assigned,
             p_address = address, p_isCreator = False, p_joinedAt = now\<rparr>"
  let ?s1 = "s\<lparr>participants := participants s @ [?p], nextParticipantId := nextParticipantId s + 1\<rparr>"
  let ?s2 = "updateEvent ?s1 eventId (\<lambda>e. e\<lparr>e_status := READY\<rparr>)"
  from assms obtain full where
    "(\<exists>d. r = Inr d)" "fst task = eventId" "s1 = ?s2" "findUniqueEvent ?s2 eventId = Some full"
    by (auto simp: participants_POST_def Let_def createParticipant_def
             split: option.splits if_splits)
  then show ?thesis
    using eventStatus_updateEvent_status[of ?s1 eventId READY full]
    by (simp add: updateEvent_frame)
qed

lemma retry_fails_no_write:
  assumes "\<And>request. generationFails (llm request)"
  shows "snd (retry_POST llm now eventId creatorNickname s) = s
         \<and> (\<exists>err. fst (retry_POST llm now eventId creatorNickname s) = Inl err)"
proof -
  have "generationFails (llm request) \<Longrightarrow>
          (case llm request of
              Throws msg \<Rightarrow> (Inl (LLM_ERROR, 503), s)
            | Returns response \<Rightarrow>
                (case l_recommendations response of
                   None \<Rightarrow> (Inl (LLM_ERROR, 503), s)
                 | Some recs \<Rightarrow>
                     if length recs > 0
                     then (Inr \<lparr>rd_message = ''Recommendations generated successfully'',
                                rd_status = VOTING\<rparr>,
                           retryPersist now eventId recs s)
                     else (Inl (LLM_ERROR, 503), s)))
            = ((Inl (LLM_ERROR, 503), s) :: RetryData Response \<times> Store)" for request
    by (auto simp: generationFails_def split: LLMOutcome.splits option.splits)
  then show ?thesis
    using assms by (auto simp: retry_POST_def split: option.splits)
qed

text \<open>
  Claim C10. When the scheduled generation task fails, the store's participants,
  recommendations and votes are what they were, every event keeps its status and all
  its other fields except \<open>updatedAt\<close>; when the generator call throws, the \<open>catch\<close>
  block sets \<open>updatedAt\<close> of the task's event to the current time and changes nothing
  else.
\<close>

theorem generation_failure_frame:
  assumes "generationFails (llm request)"
  shows "participants (runGenerationTask llm now (eventId, request) s) = participants s
       \<and> recommendations (runGenerationTask llm now (eventId, request) s) = recommendations s
       \<and> votes (runGenerationTask llm now (eventId, request) s) = votes s
       \<and> map e_status (events (runGenerationTask llm now (eventId, request) s))
            = map e_status (events s)
       \<and> map (\<lambda>e. e\<lparr>e_updatedAt := 0\<rparr>) (events (runGenerationTask llm now (eventId, request) s))
            = map (\<lambda>e. e\<lparr>e_updatedAt := 0\<rparr>) (events s)
       \<and> (\<forall>msg. llm request = Throws msg \<longrightarrow>
             events (runGenerationTask llm now (eventId, request) s)
               = map (\<lambda>e. if e_id e = eventId then e\<lparr>e_updatedAt := now\<rparr> else e) (events s))"
  using runGenerationTask_fails_frame[where llm = llm and request = request, OF assms]
    runGenerationTask_throws[where llm = llm and request = request]
  by blast

theorem generation_failure_frame_witness:
  "generationFails (generatorFailing demoRequest)
   \<and> runGenerationTask generatorFailing 1500 (''evt'', demoRequest) storeVoted
       = storeVoted\<lparr>events := [demoEvent\<lparr>e_status := VOTING, e_votingStartedAt := Some 300,
                                            e_updatedAt := 1500\<rparr>]\<rparr>
   \<and> votes (runGenerationTask generatorFailing 1500 (''evt'', demoRequest) storeVoted) = [aliceVote]
   \<and> map e_status (events (runGenerationTask generatorFailing 1500 (''evt'', demoRequest) storeVoted))
       = [VOTING]"
proof -
  have f: "generationFails (generatorFailing demoRequest)"
    by (simp add: generationFails_def generatorFailing_def)
  note T = generation_failure_frame[where llm = generatorFailing and request = demoRequest
      and now = 1500 and eventId = "''evt''" and s = storeVoted, OF f]
  have run: "runGenerationTask generatorFailing 1500 (''evt'', demoRequest) storeVoted
       = storeVoted\<lparr>events := [demoEvent\<lparr>e_status := VOTING, e_votingStartedAt := Some 300,
                                            e_updatedAt := 1500\<rparr>]\<rparr>"
    by (simp add: runGenerationTask_def generatorFailing_def updateEvent_def storeVoted_def
          storeVoting_def demoEvent_def)
  from T have "votes (runGenerationTask generatorFailing 1500 (''evt'', demoRequest) storeVoted)
                 = votes storeVoted"
    and "map e_status (events (runGenerationTask generatorFailing 1500 (''evt'', demoRequest) storeVoted))
                 = map e_status (events storeVoted)"
    by blast+
  then have "votes (runGenerationTask generatorFailing 1500 (''evt'', demoRequest) storeVoted) = [aliceVote]"
    and "map e_status (events (runGenerationTask generatorFailing 1500 (''evt'', demoRequest) storeVoted))
       = [VOTING]"
    by (simp_all add: storeVoted_def storeVoting_def)
  with f run show ?thesis by (intro conjI)
qed

text \<open>
  Claim C2. When a join schedules the generation task and the generator then fails
  (throws, or returns no list or an empty one), the join's response is a success, and
  after the task has run the event is READY and its recommendations are those it had
  before the join: none, for an event that had none. When a manual retry passes its
  preconditions and the generator fails, the response is the error \<open>LLM_ERROR\<close> (HTTP
  503) and the store is unchanged; with a failing generator no retry request writes
  anything or succeeds.
\<close>

theorem generation_failure_policy:
  "(participants_POST rnd now eventId nickname address s = (r, s1, Some task)
      \<and> generationFails (llm (snd task))
    \<longrightarrow> (\<exists>d. r = Inr d)
        \<and> eventStatus (runGenerationTask llm now' task s1) eventId = Some READY
        \<and> eventRecommendations (runGenerationTask llm now' task s1) eventId
             = eventRecommendations s eventId
        \<and> (eventRecommendations s eventId = []
             \<longrightarrow> eventRecommendations (runGenerationTask llm now' task s1) eventId = []))
   \<and> (findUniqueLive s eventId now = Some event \<and> e_status event = READY
        \<and> length (eventParticipants s eventId) = e_expectedParticipants event
        \<and> map_option p_nickname (find p_isCreator (eventParticipantsByJoinedAt s eventId))
             = Some creatorNickname
        \<and> generationFails (llm (buildLLMRequest event (eventParticipantsByJoinedAt s eventId)))
      \<longrightarrow> retry_POST llm now eventId creatorNickname s = (Inl (LLM_ERROR, 503), s))
   \<and> ((\<forall>request. generationFails (llm request))
      \<longrightarrow> snd (retry_POST llm now eventId creatorNickname s) = s
          \<and> (\<exists>err. fst (retry_POST llm now eventId creatorNickname s) = Inl err))"
proof (intro conjI impI)
  assume a: "participants_POST rnd now eventId nickname address s = (r, s1, Some task)
      \<and> generationFails (llm (snd task))"
  obtain request where task: "task = (eventId, request)"
    using join_task_scheduled[of rnd now eventId nickname address s r s1 task] a
    by (cases task) auto
  have j: "(\<exists>d. r = Inr d)" "eventStatus s1 eventId = Some READY"
    "recommendations s1 = recommendations s"
    using join_task_scheduled[of rnd now eventId nickname address s r s1 task] a by auto
  have f: "generationFails (llm request)" using a task by simp
  show "\<exists>d. r = Inr d" by (rule j(1))
  show "eventStatus (runGenerationTask llm now' task s1) eventId = Some READY"
    using eventStatus_fails[where llm = llm and request = request, OF f] j(2) task by simp
  show recs: "eventRecommendations (runGenerationTask llm now' task s1) eventId
             = eventRecommendations s eventId"
    using runGenerationTask_fails_frame(2)[where llm = llm and request = request, OF f] j(3) task
    by (simp add: eventRecommendations_def)
  show "eventRecommendations (runGenerationTask llm now' task s1) eventId = []"
    if "eventRecommendations s eventId = []"
    using that recs by simp
next
  assume a: "findUniqueLive s eventId now = Some event \<and> e_status event = READY
        \<and> length (eventParticipants s eventId) = e_expectedParticipants event
        \<and> map_option p_nickname (find p_isCreator (eventParticipantsByJoinedAt s eventId))
             = Some creatorNickname
        \<and> generationFails (llm (buildLLMRequest event (eventParticipantsByJoinedAt s eventId)))"
  then have "retry_POST llm now eventId creatorNickname s =
           (case llm (buildLLMRequest event (eventParticipantsByJoinedAt s eventId)) of
              Throws msg \<Rightarrow> (Inl (LLM_ERROR, 503), s)
            | Returns response \<Rightarrow>
                (case l_recommendations response of
                   None \<Rightarrow> (Inl (LLM_ERROR, 503), s)
                 | Some recs \<Rightarrow>
                     if length recs > 0
                     then (Inr \<lparr>rd_message = ''Recommendations generated successfully'',
                                rd_status = VOTING\<rparr>,
                           retryPersist now eventId recs s)
                     else (Inl (LLM_ERROR, 503), s)))"
    by (intro retry_accepted) auto
  then show "retry_POST llm now eventId creatorNickname s = (Inl (LLM_ERROR, 503), s)"
    using a by (auto simp: generationFails_def split: LLMOutcome.splits option.splits)
next
  assume "\<forall>request. generationFails (llm request)"
  then show "snd (retry_POST llm now eventId creatorNickname s) = s"
    "\<exists>err. fst (retry_POST llm now eventId creatorNickname s) = Inl err"
    using retry_fails_no_write[of llm now eventId creatorNickname s] by auto
qed

lemma join_bob_demo:
  "participants_POST (\<lambda>k. 5) 1000 ''evt'' ''Bob'' ''Addr B'' storeWaiting
     = (Inr \<lparr>jd_participant = \<lparr>pj_id = 2, pj_nickname = ''Bob'', pj_address = ''Addr B'',
                                 pj_is_creator = False, pj_joined_at = 1000\<rparr>,
              jd_participant_count = 2, jd_should_generate_recommendations = True,
              jd_nickname_modified = False, jd_original_nickname = None,
              jd_assigned_nickname = ''Bob''\<rparr>,
        storeWaiting\<lparr>events := [demoEvent\<lparr>e_status := READY\<rparr>],
                      participants := [alice, bob\<lparr>p_joinedAt := 1000\<rparr>],
                      nextParticipantId := 3\<rparr>,
        Some (''evt'', demoRequest))"
  by (simp add: participants_POST_def findUniqueLive_def findUniqueEvent_def eventParticipants_def
      eventParticipantsByJoinedAt_def createParticipant_def updateEvent_def buildLLMRequest_def
      participantJson_def orOther_def orUndefined_def Let_def demo_defs demoRequest_def
      generateUniqueNickname_def)

theorem generation_failure_policy_witness:
  "(\<exists>r s1 task.
      participants_POST (\<lambda>k. 5) 1000 ''evt'' ''Bob'' ''Addr B'' storeWaiting = (r, s1, Some task)
      \<and> generationFails (generatorFailing (snd task))
      \<and> (\<exists>d. r = Inr d)
      \<and> eventStatus (runGenerationTask generatorFailing 1500 task s1) ''evt'' = Some READY
      \<and> eventRecommendations storeWaiting ''evt'' = []
      \<and> eventRecommendations (runGenerationTask generatorFailing 1500 task s1) ''evt'' = [])
   \<and> findUniqueLive storeReady ''evt'' 1000 = Some (demoEvent\<lparr>e_status := READY\<rparr>)
   \<and> generationFails (generatorFailing (buildLLMRequest (demoEvent\<lparr>e_status := READY\<rparr>)
         (eventParticipantsByJoinedAt storeReady ''evt'')))
   \<and> retry_POST generatorFailing 1000 ''evt'' ''Alice'' storeReady
        = (Inl (LLM_ERROR, 503), storeReady)
   \<and> (\<forall>request. generationFails (generatorFailing request))
   \<and> snd (retry_POST generatorFailing 1000 ''evt'' ''Bob'' storeReady) = storeReady"
proof -
  have gf: "generationFails (generatorFailing request)" for request
    by (simp add: generationFails_def generatorFailing_def)
  obtain r s1 task where
    j: "participants_POST (\<lambda>k. 5) 1000 ''evt'' ''Bob'' ''Addr B'' storeWaiting = (r, s1, Some task)"
    using join_bob_demo by blast
  have none: "eventRecommendations storeWaiting ''evt'' = []"
    by (simp add: eventRecommendations_def storeWaiting_def)
  note J = generation_failure_policy[where llm = generatorFailing and rnd = "\<lambda>k. 5" and now = 1000
      and eventId = "''evt''" and nickname = "''Bob''" and address = "''Addr B''"
      and s = storeWaiting and r = r and ?s1.0 = s1 and task = task and now' = 1500]
  from J j gf[of "snd task"] none
  have part1: "(\<exists>d. r = Inr d)
      \<and> eventStatus (runGenerationTask generatorFailing 1500 task s1) ''evt'' = Some READY
      \<and> eventRecommendations (runGenerationTask generatorFailing 1500 task s1) ''evt'' = []"
    by blast
  have st: "e_status (demoEvent\<lparr>e_status := READY\<rparr>) = READY" by simp
  have len: "length (eventParticipants storeReady ''evt'')
        = e_expectedParticipants (demoEvent\<lparr>e_status := READY\<rparr>)"
    by (simp add: demo_ready_participants demoEvent_def)
  note R = generation_failure_policy[where llm = generatorFailing and now = 1000
      and eventId = "''evt''" and s = storeReady and event = "demoEvent\<lparr>e_status := READY\<rparr>"
      and creatorNickname = "''Alice''"]
  from R demo_ready_live st len demo_ready_creator gf
  have part2: "retry_POST generatorFailing 1000 ''evt'' ''Alice'' storeReady
        = (Inl (LLM_ERROR, 503), storeReady)"
    by blast
  note B = generation_failure_policy[where llm = generatorFailing and now = 1000
      and eventId = "''evt''" and s = storeReady and creatorNickname = "''Bob''"]
  from B gf have part3: "snd (retry_POST generatorFailing 1000 ''evt'' ''Bob'' storeReady) = storeReady"
    by blast
  from j gf[of "snd task"] part1 none have ex: "\<exists>r s1 task.
      participants_POST (\<lambda>k. 5) 1000 ''evt'' ''Bob'' ''Addr B'' storeWaiting = (r, s1, Some task)
      \<and> generationFails (generatorFailing (snd task))
      \<and> (\<exists>d. r = Inr d)
      \<and> eventStatus (runGenerationTask generatorFailing 1500 task s1) ''evt'' = Some READY
      \<and> eventRecommendations storeWaiting ''evt'' = []
      \<and> eventRecommendations (runGenerationTask generatorFailing 1500 task s1) ''evt'' = []"
    by blast
  from ex demo_ready_live gf part2 part3 show ?thesis by (intro conjI allI)
qed

section \<open>Properties of successful generation\<close>

lemma fold_createRecommendation:
  "recommendations (fold (createRecommendation eventId now) recs s)
     = recommendations s
       @ map2 (recommendationData eventId now)
           [nextRecommendationId s ..< nextRecommendationId s + length recs] recs
   \<and> nextRecommendationId (fold (createRecommendation eventId now) recs s)
       = nextRecommendationId s + length recs
   \<and> events (fold (createRecommendation eventId now) recs s) = events s
   \<and> participants (fold (createRecommendation eventId now) recs s) = participants s
   \<and> votes (fold (createRecommendation eventId now) recs s) = votes s"
proof (induction recs arbitrary: s)
  case Nil
  show ?case by simp
next
  case (Cons rec recs)
  let ?s = "createRecommendation eventId now rec s"
  have n: "nextRecommendationId ?s = Suc (nextRecommendationId s)"
    and r: "recommendations ?s
              = recommendations s @ [recommendationData eventId now (nextRecommendationId s) rec]"
    and o: "events ?s = events s" "participants ?s = participants s" "votes ?s = votes s"
    by (simp_all add: createRecommendation_def)
  have u: "[nextRecommendationId s ..< Suc (nextRecommendationId s + length recs)]
             = nextRecommendationId s
               # [Suc (nextRecommendationId s) ..< Suc (nextRecommendationId s + length recs)]"
    by (rule upt_conv_Cons) simp
  show ?case
    using Cons.IH[of ?s] by (simp add: n r o u del: upt_Suc)
qed

lemma map2_recommendationData:
  assumes "length ids = length recs"
  shows "map r_rank (map2 (recommendationData eventId now) ids recs) = map l_rank recs"
    and "filter (\<lambda>r. r_eventId r = eventId) (map2 (recommendationData eventId now) ids recs)
           = map2 (recommendationData eventId now) ids recs"
    and "other \<noteq> eventId \<Longrightarrow>
           filter (\<lambda>r. r_eventId r = other) (map2 (recommendationData eventId now) ids recs) = []"
    and "map r_id (map2 (recommendationData eventId now) ids recs) = ids"
  using assms
  by (induction ids recs rule: list_induct2) (simp_all add: recommendationData_def)

lemma eventRecommendations_persistGenerated:
  "eventRecommendations (persistGenerated now eventId recs s) eventId
     = eventRecommendations s eventId
       @ map2 (recommendationData eventId now)
           [nextRecommendationId s ..< nextRecommendationId s + length recs] recs"
  "other \<noteq> eventId \<Longrightarrow>
     eventRecommendations (persistGenerated now eventId recs s) other = eventRecommendations s other"
  by (simp_all add: persistGenerated_def eventRecommendations_def updateEvent_def
        fold_createRecommendation map2_recommendationData)

lemma eventRecommendations_retryPersist:
  "eventRecommendations (retryPersist now eventId recs s) eventId
     = map2 (recommendationData eventId now)
         [nextRecommendationId s ..< nextRecommendationId s + length recs] recs"
  "other \<noteq> eventId \<Longrightarrow>
     eventRecommendations (retryPersist now eventId recs s) other = eventRecommendations s other"
proof -
  let ?d = "deleteManyRecommendations s eventId"
  have d: "nextRecommendationId ?d = nextRecommendationId s"
    "filter (\<lambda>r. r_eventId r = eventId) (recommendations ?d) = []"
    by (simp_all add: deleteManyRecommendations_def)
  have d': "filter (\<lambda>r. r_eventId r = other) (recommendations ?d)
              = filter (\<lambda>r. r_eventId r = other) (recommendations s)" if "other \<noteq> eventId"
    using that by (auto simp: deleteManyRecommendations_def intro: filter_cong)
  show "eventRecommendations (retryPersist now eventId recs s) eventId
     = map2 (recommendationData eventId now)
         [nextRecommendationId s ..< nextRecommendationId s + length recs] recs"
    by (simp add: retryPersist_def eventRecommendations_def updateEvent_def
          fold_createRecommendation map2_recommendationData d)
  show "eventRecommendations (retryPersist now eventId recs s) other = eventRecommendations s other"
    if "other \<noteq> eventId"
    using that d'[OF that]
    by (simp add: retryPersist_def eventRecommendations_def updateEvent_def
          fold_createRecommendation map2_recommendationData d)
qed

lemma findUniqueLive_fold_create:
  "findUniqueLive (fold (createRecommendation eventId' now') recs s) eventId now
     = findUniqueLive s eventId now"
  by (simp add: findUniqueLive_def fold_createRecommendation)

lemma findUniqueLive_deleteMany:
  "findUniqueLive (deleteManyRecommendations s eventId') eventId now = findUniqueLive s eventId now"
  by (simp add: findUniqueLive_def deleteManyRecommendations_def)

lemma findUniqueLive_persistGenerated:
  assumes "findUniqueLive s eventId now = Some event"
  shows "findUniqueLive (persistGenerated now' eventId recs s) eventId now
           = Some (event\<lparr>e_status := VOTING, e_votingStartedAt := Some now'\<rparr>)"
  unfolding persistGenerated_def
  by (rule findUniqueLive_updateEvent) (simp_all add: findUniqueLive_fold_create assms)

lemma findUniqueLive_retryPersist:
  assumes "findUniqueLive s eventId now = Some event"
  shows "findUniqueLive (retryPersist now' eventId recs s) eventId now
           = Some (event\<lparr>e_status := VOTING, e_votingStartedAt := Some now'\<rparr>)"
  unfolding retryPersist_def
  by (rule findUniqueLive_updateEvent)
     (simp_all add: findUniqueLive_fold_create findUniqueLive_deleteMany assms)

lemma storeAfterJoin_eq:
  "storeAfterJoin =
     \<lparr>events = [demoEvent\<lparr>e_status := READY\<rparr>],
      participants = [alice, bob\<lparr>p_joinedAt := 1000\<rparr>],
      recommendations = [], votes = [],
      nextParticipantId = 3, nextRecommendationId = 1, nextVoteId = 1\<rparr>"
  unfolding storeAfterJoin_def join_bob_demo by (simp add: storeWaiting_def)

lemma storeAfterJoin_view:
  "findUniqueLive storeAfterJoin ''evt'' 1200 = Some (demoEvent\<lparr>e_status := READY\<rparr>)"
  "eventParticipants storeAfterJoin ''evt'' = [alice, bob\<lparr>p_joinedAt := 1000\<rparr>]"
  "eventParticipantsByJoinedAt storeAfterJoin ''evt'' = [alice, bob\<lparr>p_joinedAt := 1000\<rparr>]"
  "eventRecommendations storeAfterJoin ''evt'' = []"
  "nextRecommendationId storeAfterJoin = 1"
  by (simp_all add: storeAfterJoin_eq findUniqueLive_def eventParticipants_def
        eventParticipantsByJoinedAt_def eventRecommendations_def demoEvent_def alice_def bob_def)

lemma storeAfterJoin_request:
  "buildLLMRequest (demoEvent\<lparr>e_status := READY\<rparr>) [alice, bob\<lparr>p_joinedAt := 1000\<rparr>] = demoRequest"
  by (simp add: buildLLMRequest_def demoRequest_def demoEvent_def alice_def bob_def
        orOther_def orUndefined_def)

lemma demo_facts:
  "e_expectedParticipants demoEvent = 2" "e_id demoEvent = ''evt''" "e_expiresAt demoEvent = 5000"
  "p_isCreator alice" "p_nickname alice = ''Alice''" "p_eventId alice = ''evt''"
  "\<not> p_isCreator bob" "p_nickname bob = ''Bob''" "p_eventId bob = ''evt''"
  by (simp_all add: demoEvent_def alice_def bob_def)

lemma retry_demo:
  assumes "llm demoRequest = Returns response" "l_recommendations response = Some recs" "recs \<noteq> []"
  shows "retry_POST llm 1200 ''evt'' ''Alice'' storeAfterJoin
           = (Inr \<lparr>rd_message = ''Recommendations generated successfully'', rd_status = VOTING\<rparr>,
              retryPersist 1200 ''evt'' recs storeAfterJoin)"
  using assms
  by (simp add: retry_POST_def storeAfterJoin_view storeAfterJoin_request demo_facts)

lemma storeAfterRetry_view:
  "storeAfterRetry = retryPersist 1200 ''evt'' [demoLLMRec 1, demoLLMRec 2, demoLLMRec 3] storeAfterJoin"
  "map r_rank (eventRecommendations storeAfterRetry ''evt'') = [1, 2, 3]"
  "nextRecommendationId storeAfterRetry = 4"
proof -
  show a: "storeAfterRetry
             = retryPersist 1200 ''evt'' [demoLLMRec 1, demoLLMRec 2, demoLLMRec 3] storeAfterJoin"
    unfolding storeAfterRetry_def
    by (subst retry_demo[where recs = "[demoLLMRec 1, demoLLMRec 2, demoLLMRec 3]"
          and response = "\<lparr>l_analysis = Some ''ok'',
                l_recommendations = Some [demoLLMRec 1, demoLLMRec 2, demoLLMRec 3]\<rparr>"])
       (simp_all add: generatorThree_def)
  show "map r_rank (eventRecommendations storeAfterRetry ''evt'') = [1, 2, 3]"
    by (simp add: a eventRecommendations_retryPersist recommendationData_def demoLLMRec_def)
  show "nextRecommendationId storeAfterRetry = 4"
    by (simp add: a retryPersist_def updateEvent_frame createRecommendation_def
          deleteManyRecommendations_def storeAfterJoin_view)
qed

text \<open>
  Claim C1, as the code has it. The persistence step is one transaction, a single
  function from store to store. In the manual retry it leaves the event with exactly one
  new recommendation per generator entry, in the generator's order and with the
  generator's ranks (so three recommendations ranked 1, 2, 3 when the generator
  returns three entries so ranked), every recommendation the event had before being
  deleted; the event is in VOTING with \<open>votingStartedAt\<close> the current time. The scheduled
  task, whatever the event holds when it runs, inserts one new recommendation per
  generator entry, in the generator's order and with the generator's ranks, behind the
  event's recommendations, and puts the event in VOTING with \<open>votingStartedAt\<close> the
  current time; for an event that holds no recommendation the event then holds exactly
  the new ones.
\<close>

theorem generation_success_persistence:
  "(findUniqueLive s eventId now = Some event \<and> e_status event = READY
      \<and> length (eventParticipants s eventId) = e_expectedParticipants event
      \<and> map_option p_nickname (find p_isCreator (eventParticipantsByJoinedAt s eventId))
           = Some creatorNickname
      \<and> llm (buildLLMRequest event (eventParticipantsByJoinedAt s eventId)) = Returns response
      \<and> l_recommendations response = Some recs \<and> recs \<noteq> []
    \<longrightarrow> fst (retry_POST llm now eventId creatorNickname s)
          = Inr \<lparr>rd_message = ''Recommendations generated successfully'', rd_status = VOTING\<rparr>
        \<and> eventRecommendations (snd (retry_POST llm now eventId creatorNickname s)) eventId
          = map2 (recommendationData eventId now)
              [nextRecommendationId s ..< nextRecommendationId s + length recs] recs
        \<and> map r_rank (eventRecommendations (snd (retry_POST llm now eventId creatorNickname s)) eventId)
          = map l_rank recs
        \<and> findUniqueLive (snd (retry_POST llm now eventId creatorNickname s)) eventId now
          = Some (event\<lparr>e_status := VOTING, e_votingStartedAt := Some now\<rparr>))
   \<and> (llm' request = Returns response' \<and> l_recommendations response' = Some recs' \<and> recs' \<noteq> []
    \<longrightarrow> eventRecommendations (runGenerationTask llm' now' (eventId, request) s) eventId
          = eventRecommendations s eventId
            @ map2 (recommendationData eventId now')
                [nextRecommendationId s ..< nextRecommendationId s + length recs'] recs'
        \<and> map r_rank (map2 (recommendationData eventId now')
                [nextRecommendationId s ..< nextRecommendationId s + length recs'] recs')
          = map l_rank recs'
        \<and> (findUniqueLive s eventId now = Some event
            \<longrightarrow> findUniqueLive (runGenerationTask llm' now' (eventId, request) s) eventId now
                  = Some (event\<lparr>e_status := VOTING, e_votingStartedAt := Some now'\<rparr>))
        \<and> (eventRecommendations s eventId = []
            \<longrightarrow> eventRecommendations (runGenerationTask llm' now' (eventId, request) s) eventId
                  = map2 (recommendationData eventId now')
                      [nextRecommendationId s ..< nextRecommendationId s + length recs'] recs'
                \<and> map r_rank
                      (eventRecommendations (runGenerationTask llm' now' (eventId, request) s) eventId)
                  = map l_rank recs'))"
proof (intro conjI impI)
  assume a: "findUniqueLive s eventId now = Some event \<and> e_status event = READY
      \<and> length (eventParticipants s eventId) = e_expectedParticipants event
      \<and> map_option p_nickname (find p_isCreator (eventParticipantsByJoinedAt s eventId))
           = Some creatorNickname
      \<and> llm (buildLLMRequest event (eventParticipantsByJoinedAt s eventId)) = Returns response
      \<and> l_recommendations response = Some recs \<and> recs \<noteq> []"
  then have "retry_POST llm now eventId creatorNickname s =
           (case llm (buildLLMRequest event (eventParticipantsByJoinedAt s eventId)) of
              Throws msg \<Rightarrow> (Inl (LLM_ERROR, 503), s)
            | Returns response \<Rightarrow>
                (case l_recommendations response of
                   None \<Rightarrow> (Inl (LLM_ERROR, 503), s)
                 | Some recs \<Rightarrow>
                     if length recs > 0
                     then (Inr \<lparr>rd_message = ''Recommendations generated successfully'',
                                rd_status = VOTING\<rparr>,
                           retryPersist now eventId recs s)
                     else (Inl (LLM_ERROR, 503), s)))"
    by (intro retry_accepted) auto
  with a have r: "retry_POST llm now eventId creatorNickname s
           = (Inr \<lparr>rd_message = ''Recommendations generated successfully'', rd_status = VOTING\<rparr>,
              retryPersist now eventId recs s)"
    by simp
  have len: "length [nextRecommendationId s ..< nextRecommendationId s + length recs] = length recs"
    by simp
  show "fst (retry_POST llm now eventId creatorNickname s)
          = Inr \<lparr>rd_message = ''Recommendations generated successfully'', rd_status = VOTING\<rparr>"
    by (simp add: r)
  show "eventRecommendations (snd (retry_POST llm now eventId creatorNickname s)) eventId
          = map2 (recommendationData eventId now)
              [nextRecommendationId s ..< nextRecommendationId s + length recs] recs"
    by (simp add: r eventRecommendations_retryPersist)
  show "map r_rank (eventRecommendations (snd (retry_POST llm now eventId creatorNickname s)) eventId)
          = map l_rank recs"
    unfolding r snd_conv eventRecommendations_retryPersist
    by (rule map2_recommendationData(1)[OF len])
  show "findUniqueLive (snd (retry_POST llm now eventId creatorNickname s)) eventId now
          = Some (event\<lparr>e_status := VOTING, e_votingStartedAt := Some now\<rparr>)"
    using a by (simp add: r findUniqueLive_retryPersist)
next
  assume a: "llm' request = Returns response' \<and> l_recommendations response' = Some recs' \<and> recs' \<noteq> []"
  then have r: "runGenerationTask llm' now' (eventId, request) s = persistGenerated now' eventId recs' s"
    by (simp add: runGenerationTask_def)
  have len: "length [nextRecommendationId s ..< nextRecommendationId s + length recs'] = length recs'"
    by simp
  show e: "eventRecommendations (runGenerationTask llm' now' (eventId, request) s) eventId
          = eventRecommendations s eventId
            @ map2 (recommendationData eventId now')
                [nextRecommendationId s ..< nextRecommendationId s + length recs'] recs'"
    by (simp add: r eventRecommendations_persistGenerated)
  show ranks: "map r_rank (map2 (recommendationData eventId now')
                [nextRecommendationId s ..< nextRecommendationId s + length recs'] recs')
          = map l_rank recs'"
    by (rule map2_recommendationData(1)[OF len])
  show "findUniqueLive (runGenerationTask llm' now' (eventId, request) s) eventId now
          = Some (event\<lparr>e_status := VOTING, e_votingStartedAt := Some now'\<rparr>)"
    if "findUniqueLive s eventId now = Some event"
    using that by (simp add: r findUniqueLive_persistGenerated)
  show "eventRecommendations (runGenerationTask llm' now' (eventId, request) s) eventId
          = map2 (recommendationData eventId now')
              [nextRecommendationId s ..< nextRecommendationId s + length recs'] recs'"
    if "eventRecommendations s eventId = []"
    using that e by simp
  show "map r_rank (eventRecommendations (runGenerationTask llm' now' (eventId, request) s) eventId)
          = map l_rank recs'"
    if "eventRecommendations s eventId = []"
    unfolding e that append_Nil by (rule ranks)
qed

theorem generation_success_persistence_witness:
  "findUniqueLive storeAfterJoin ''evt'' 1200 = Some (demoEvent\<lparr>e_status := READY\<rparr>)
   \<and> generatorThree demoRequest
       = Returns \<lparr>l_analysis = Some ''ok'',
                  l_recommendations = Some [demoLLMRec 1, demoLLMRec 2, demoLLMRec 3]\<rparr>
   \<and> eventRecommendations storeAfterJoin ''evt'' = []
   \<and> map r_rank (eventRecommendations (snd (retry_POST generatorThree 1200 ''evt'' ''Alice'' storeAfterJoin)) ''evt'')
       = [1, 2, 3]
   \<and> findUniqueLive (snd (retry_POST generatorThree 1200 ''evt'' ''Alice'' storeAfterJoin)) ''evt'' 1200
       = Some (demoEvent\<lparr>e_status := VOTING, e_votingStartedAt := Some 1200\<rparr>)
   \<and> map r_rank (eventRecommendations
         (runGenerationTask generatorThree 1500 (''evt'', demoRequest) storeAfterJoin) ''evt'')
       = [1, 2, 3]
   \<and> findUniqueLive (runGenerationTask generatorThree 1500 (''evt'', demoRequest) storeAfterJoin) ''evt'' 1200
       = Some (demoEvent\<lparr>e_status := VOTING, e_votingStartedAt := Some 1500\<rparr>)"
proof -
  let ?resp = "\<lparr>l_analysis = Some ''ok'',
                 l_recommendations = Some [demoLLMRec 1, demoLLMRec 2, demoLLMRec 3]\<rparr>"
  let ?recs = "[demoLLMRec 1, demoLLMRec 2, demoLLMRec 3]"
  note T = generation_success_persistence[where s = storeAfterJoin and eventId = "''evt''"
      and now = 1200 and event = "demoEvent\<lparr>e_status := READY\<rparr>"
      and creatorNickname = "''Alice''" and llm = generatorThree and response = ?resp
      and recs = ?recs and llm' = generatorThree and request = demoRequest
      and response' = ?resp and recs' = ?recs and now' = 1500]
  have g: "generatorThree r = Returns ?resp" for r by (simp add: generatorThree_def)
  have pre: "findUniqueLive storeAfterJoin ''evt'' 1200 = Some (demoEvent\<lparr>e_status := READY\<rparr>)
      \<and> e_status (demoEvent\<lparr>e_status := READY\<rparr>) = READY
      \<and> length (eventParticipants storeAfterJoin ''evt'')
           = e_expectedParticipants (demoEvent\<lparr>e_status := READY\<rparr>)
      \<and> map_option p_nickname (find p_isCreator (eventParticipantsByJoinedAt storeAfterJoin ''evt''))
           = Some ''Alice''
      \<and> generatorThree (buildLLMRequest (demoEvent\<lparr>e_status := READY\<rparr>)
             (eventParticipantsByJoinedAt storeAfterJoin ''evt'')) = Returns ?resp
      \<and> l_recommendations ?resp = Some ?recs \<and> ?recs \<noteq> []"
    by (simp add: storeAfterJoin_view demo_facts g)
  have pre': "generatorThree demoRequest = Returns ?resp \<and> l_recommendations ?resp = Some ?recs
      \<and> ?recs \<noteq> []"
    by (simp add: g)
  have live: "findUniqueLive storeAfterJoin ''evt'' 1200 = Some (demoEvent\<lparr>e_status := READY\<rparr>)"
    and none: "eventRecommendations storeAfterJoin ''evt'' = []"
    by (simp_all add: storeAfterJoin_view)
  have ranks: "map l_rank ?recs = [1, 2, 3]" by (simp add: demoLLMRec_def)
  from T pre have m:
    "map r_rank (eventRecommendations (snd (retry_POST generatorThree 1200 ''evt'' ''Alice'' storeAfterJoin)) ''evt'')
       = map l_rank ?recs"
    "findUniqueLive (snd (retry_POST generatorThree 1200 ''evt'' ''Alice'' storeAfterJoin)) ''evt'' 1200
       = Some (demoEvent\<lparr>e_status := READY, e_status := VOTING, e_votingStartedAt := Some 1200\<rparr>)"
    by blast+
  from T pre' live none have a:
    "map r_rank (eventRecommendations
         (runGenerationTask generatorThree 1500 (''evt'', demoRequest) storeAfterJoin) ''evt'')
       = map l_rank ?recs"
    "findUniqueLive (runGenerationTask generatorThree 1500 (''evt'', demoRequest) storeAfterJoin) ''evt'' 1200
       = Some (demoEvent\<lparr>e_status := READY, e_status := VOTING, e_votingStartedAt := Some 1500\<rparr>)"
    by blast+
  from m a ranks pre' live none show ?thesis by simp
qed

text \<open>
  Claim C1 as stated fails in two ways. The scheduled task does not delete: when the
  creator's manual retry has succeeded while the task was pending, the task adds a second
  set, and the event holds six recommendations with every rank twice. And the number and
  ranks of the inserted recommendations are the generator's: a generator that returns one
  entry ranked 2 leaves one recommendation ranked 2.
\<close>

theorem generation_persistence_counterexample:
  "snd (snd (participants_POST (\<lambda>k. 5) 1000 ''evt'' ''Bob'' ''Addr B'' storeWaiting))
     = Some (''evt'', demoRequest)
   \<and> fst (retry_POST generatorThree 1200 ''evt'' ''Alice'' storeAfterJoin)
     = Inr \<lparr>rd_message = ''Recommendations generated successfully'', rd_status = VOTING\<rparr>
   \<and> map r_rank (eventRecommendations storeAfterRetry ''evt'') = [1, 2, 3]
   \<and> map r_rank (eventRecommendations
        (runGenerationTask generatorThree 1500 (''evt'', demoRequest) storeAfterRetry) ''evt'')
     = [1, 2, 3, 1, 2, 3]
   \<and> fst (retry_POST generatorOne 1200 ''evt'' ''Alice'' storeAfterJoin)
     = Inr \<lparr>rd_message = ''Recommendations generated successfully'', rd_status = VOTING\<rparr>
   \<and> map r_rank (eventRecommendations
        (snd (retry_POST generatorOne 1200 ''evt'' ''Alice'' storeAfterJoin)) ''evt'')
     = [2]"
proof -
  have r3: "retry_POST generatorThree 1200 ''evt'' ''Alice'' storeAfterJoin
           = (Inr \<lparr>rd_message = ''Recommendations generated successfully'', rd_status = VOTING\<rparr>,
              retryPersist 1200 ''evt'' [demoLLMRec 1, demoLLMRec 2, demoLLMRec 3] storeAfterJoin)"
    by (rule retry_demo[where response = "\<lparr>l_analysis = Some ''ok'',
                l_recommendations = Some [demoLLMRec 1, demoLLMRec 2, demoLLMRec 3]\<rparr>"])
       (simp_all add: generatorThree_def)
  have r1: "retry_POST generatorOne 1200 ''evt'' ''Alice'' storeAfterJoin
           = (Inr \<lparr>rd_message = ''Recommendations generated successfully'', rd_status = VOTING\<rparr>,
              retryPersist 1200 ''evt'' [demoLLMRec 2] storeAfterJoin)"
    by (rule retry_demo[where response = "\<lparr>l_analysis = Some ''ok'',
                l_recommendations = Some [demoLLMRec 2]\<rparr>"])
       (simp_all add: generatorOne_def)
  have run: "runGenerationTask generatorThree 1500 (''evt'', demoRequest) storeAfterRetry
               = persistGenerated 1500 ''evt'' [demoLLMRec 1, demoLLMRec 2, demoLLMRec 3] storeAfterRetry"
    by (simp add: runGenerationTask_def generatorThree_def)
  have six: "map r_rank (eventRecommendations
        (runGenerationTask generatorThree 1500 (''evt'', demoRequest) storeAfterRetry) ''evt'')
     = [1, 2, 3, 1, 2, 3]"
    unfolding run eventRecommendations_persistGenerated(1) map_append storeAfterRetry_view(2,3)
    by (simp add: recommendationData_def demoLLMRec_def)
  have one: "map r_rank (eventRecommendations
        (snd (retry_POST generatorOne 1200 ''evt'' ''Alice'' storeAfterJoin)) ''evt'') = [2]"
    by (simp add: r1 eventRecommendations_retryPersist recommendationData_def demoLLMRec_def)
  show ?thesis
    using six one storeAfterRetry_view(2) by (simp add: join_bob_demo r3 r1)
qed

section \<open>Properties of voting\<close>

lemma castVoteTx_cases:
  "find (\<lambda>v. v_eventId v = eventId \<and> v_voterNickname v = nickname) (votes s) = None \<Longrightarrow>
     castVoteTx now eventId recommendationId nickname s
       = ((False, \<lparr>v_id = nextVoteId s, v_recommendationId = recommendationId,
                   v_eventId = eventId, v_voterNickname = nickname, v_votedAt = now\<rparr>),
          s\<lparr>votes := votes s @ [\<lparr>v_id = nextVoteId s, v_recommendationId = recommendationId,
                   v_eventId = eventId, v_voterNickname = nickname, v_votedAt = now\<rparr>],
            nextVoteId := nextVoteId s + 1\<rparr>)"
  "find (\<lambda>v. v_eventId v = eventId \<and> v_voterNickname v = nickname) (votes s) = Some old \<Longrightarrow>
   v_recommendationId old = recommendationId \<Longrightarrow>
     castVoteTx now eventId recommendationId nickname s = ((True, old), s)"
  "find (\<lambda>v. v_eventId v = eventId \<and> v_voterNickname v = nickname) (votes s) = Some old \<Longrightarrow>
   v_recommendationId old \<noteq> recommendationId \<Longrightarrow>
     castVoteTx now eventId recommendationId nickname s
       = ((False, \<lparr>v_id = nextVoteId s, v_recommendationId = recommendationId,
                   v_eventId = eventId, v_voterNickname = nickname, v_votedAt = now\<rparr>),
          s\<lparr>votes := filter (\<lambda>v. v_id v \<noteq> v_id old) (votes s)
                      @ [\<lparr>v_id = nextVoteId s, v_recommendationId = recommendationId,
                   v_eventId = eventId, v_voterNickname = nickname, v_votedAt = now\<rparr>],
            nextVoteId := nextVoteId s + 1\<rparr>)"
  by (simp_all add: castVoteTx_def createVote_def deleteVote_def Let_def)

lemma distinct_keys_filter:
  "distinct (map f xs) \<Longrightarrow> distinct (map f (filter P xs))"
  by (rule distinct_map_filter)

lemma key_unique:
  assumes "distinct (map f xs)" "x \<in> set xs" "y \<in> set xs" "f x = f y"
  shows "x = y"
  using assms by (meson distinct_map inj_onD)

lemma distinct_castVoteTx:
  assumes "distinct (voterKeys s)"
  shows "distinct (voterKeys (snd (castVoteTx now eventId recommendationId nickname s)))"
proof (cases "find (\<lambda>v. v_eventId v = eventId \<and> v_voterNickname v = nickname) (votes s)")
  case None
  then have "(eventId, nickname) \<notin> set (voterKeys s)"
    by (auto simp: find_None_iff voterKeys_def)
  then show ?thesis
    using assms by (simp add: castVoteTx_cases(1)[OF None] voterKeys_def)
next
  case (Some old)
  then have old: "old \<in> set (votes s)" "v_eventId old = eventId" "v_voterNickname old = nickname"
    by (auto simp: find_Some_iff)
  show ?thesis
  proof (cases "v_recommendationId old = recommendationId")
    case True
    then show ?thesis using assms by (simp add: castVoteTx_cases(2)[OF Some])
  next
    case False
    let ?f = "\<lambda>v. (v_eventId v, v_voterNickname v)"
    have d: "distinct (map ?f (votes s))" using assms by (simp add: voterKeys_def)
    have "(eventId, nickname) \<notin> set (map ?f (filter (\<lambda>v. v_id v \<noteq> v_id old) (votes s)))"
    proof
      assume "(eventId, nickname) \<in> set (map ?f (filter (\<lambda>v. v_id v \<noteq> v_id old) (votes s)))"
      then obtain v where v: "v \<in> set (votes s)" "v_id v \<noteq> v_id old" "?f v = (eventId, nickname)"
        by auto
      then have "?f v = ?f old" using old by simp
      from key_unique[OF d v(1) old(1) this] v(2) show False by simp
    qed
    then show ?thesis
      using distinct_keys_filter[OF d]
      by (simp add: castVoteTx_cases(3)[OF Some False] voterKeys_def)
  qed
qed

lemma vote_POST_store:
  "snd (vote_POST now eventId recommendationId nickname s) = s
   \<or> snd (vote_POST now eventId recommendationId nickname s)
       = snd (castVoteTx now eventId recommendationId nickname s)"
  by (auto simp: vote_POST_def Let_def split: option.splits prod.splits)

lemma vote_DELETE_store:
  "snd (vote_DELETE now eventId recommendationId nickname s) = s
   \<or> (\<exists>i. snd (vote_DELETE now eventId recommendationId nickname s) = deleteVote s i)"
  by (auto simp: vote_DELETE_def Let_def split: option.splits)

lemma distinct_applyVoteOp:
  assumes "distinct (voterKeys s)"
  shows "distinct (voterKeys (applyVoteOp op s))"
proof (cases op)
  case (CastVote now eventId recommendationId nickname)
  then show ?thesis
    using vote_POST_store[of now eventId recommendationId nickname s] assms
      distinct_castVoteTx[OF assms, of now eventId recommendationId nickname]
    by auto
next
  case (RemoveVote now eventId recommendationId nickname)
  have "distinct (voterKeys (deleteVote s i))" for i
    using assms by (simp add: voterKeys_def deleteVote_def distinct_map_filter)
  then show ?thesis
    using RemoveVote vote_DELETE_store[of now eventId recommendationId nickname s] assms
    by auto
qed

lemma distinct_runVoteOps:
  "distinct (voterKeys s) \<Longrightarrow> distinct (voterKeys (runVoteOps ops s))"
  unfolding runVoteOps_def
  by (induction ops arbitrary: s) (simp_all add: distinct_applyVoteOp)

lemma distinct_keys_count:
  "distinct (map f xs) \<Longrightarrow> length (filter (\<lambda>x. f x = k) xs) \<le> 1"
proof (induction xs)
  case Nil
  show ?case by simp
next
  case (Cons x xs)
  show ?case
  proof (cases "f x = k")
    case True
    have nin: "f x \<notin> f ` set xs" using Cons.prems by simp
    have "f y \<noteq> k" if "y \<in> set xs" for y
    proof
      assume "f y = k"
      then have "f x = f y" using True by simp
      then have "f x \<in> f ` set xs" using that by (rule image_eqI)
      with nin show False ..
    qed
    then have "filter (\<lambda>x. f x = k) xs = []"
      by (simp add: filter_empty_conv)
    then show ?thesis using True by simp
  next
    case False
    then show ?thesis using Cons by simp
  qed
qed

lemma voterVotes_at_most_one:
  assumes "distinct (voterKeys s)"
  shows "length (voterVotes s eventId nickname) \<le> 1"
proof -
  have "voterVotes s eventId nickname
          = filter (\<lambda>v. (v_eventId v, v_voterNickname v) = (eventId, nickname)) (votes s)"
    by (simp add: voterVotes_def)
  then show ?thesis
    using distinct_keys_count[of "\<lambda>v. (v_eventId v, v_voterNickname v)" "votes s" "(eventId, nickname)"]
      assms
    by (simp add: voterKeys_def)
qed

text \<open>
  Claim C3. Starting from a store in which no two votes share their (eventId,
  voterNickname) pair, after any sequence of vote and unvote requests (accepted or
  rejected, for any events, recommendations and nicknames) every such pair has at most
  one vote. A change of vote is one transaction whose committed store is that of
  deleting the old vote and then creating the new one.
\<close>

theorem one_vote_per_voter:
  assumes "distinct (voterKeys s)"
  shows "length (voterVotes (runVoteOps ops s) eventId nickname) \<le> 1
       \<and> (\<forall>old. find (\<lambda>v. v_eventId v = eventId \<and> v_voterNickname v = nickname) (votes s) = Some old
                \<and> v_recommendationId old \<noteq> recommendationId
            \<longrightarrow> snd (castVoteTx now eventId recommendationId nickname s)
                  = snd (createVote (deleteVote s (v_id old)) recommendationId eventId nickname now))"
proof
  show "length (voterVotes (runVoteOps ops s) eventId nickname) \<le> 1"
    using assms by (intro voterVotes_at_most_one distinct_runVoteOps)
  show "\<forall>old. find (\<lambda>v. v_eventId v = eventId \<and> v_voterNickname v = nickname) (votes s) = Some old
                \<and> v_recommendationId old \<noteq> recommendationId
            \<longrightarrow> snd (castVoteTx now eventId recommendationId nickname s)
                  = snd (createVote (deleteVote s (v_id old)) recommendationId eventId nickname now)"
    by (auto simp: castVoteTx_def Let_def split: prod.splits)
qed

lemmas vote_eval = vote_POST_def vote_DELETE_def castVoteTx_def createVote_def deleteVote_def
  voteData_def findUniqueLive_def eventParticipants_def Let_def

lemma demo_run:
  "votes (runVoteOps [CastVote 1000 ''evt'' 1 ''Alice'', CastVote 1001 ''evt'' 2 ''Alice'',
                      CastVote 1002 ''evt'' 2 ''Bob'', RemoveVote 1003 ''evt'' 2 ''Bob'']
            storeVoting)
     = [\<lparr>v_id = 2, v_recommendationId = 2, v_eventId = ''evt'', v_voterNickname = ''Alice'',
         v_votedAt = 1001\<rparr>]"
  by (simp add: runVoteOps_def vote_eval demo_defs recommendationData_def)

theorem one_vote_per_voter_witness:
  "distinct (voterKeys storeVoting)
   \<and> length (voterVotes
        (runVoteOps [CastVote 1000 ''evt'' 1 ''Alice'', CastVote 1001 ''evt'' 2 ''Alice'',
                     CastVote 1002 ''evt'' 2 ''Bob'', RemoveVote 1003 ''evt'' 2 ''Bob'']
           storeVoting) ''evt'' ''Alice'') = 1
   \<and> distinct (voterKeys storeVoted)
   \<and> find (\<lambda>v. v_eventId v = ''evt'' \<and> v_voterNickname v = ''Alice'') (votes storeVoted)
       = Some aliceVote
   \<and> v_recommendationId aliceVote \<noteq> 2
   \<and> votes (snd (castVoteTx 1000 ''evt'' 2 ''Alice'' storeVoted))
       = [\<lparr>v_id = 2, v_recommendationId = 2, v_eventId = ''evt'', v_voterNickname = ''Alice'',
           v_votedAt = 1000\<rparr>]"
proof -
  let ?ops = "[CastVote 1000 ''evt'' 1 ''Alice'', CastVote 1001 ''evt'' 2 ''Alice'',
               CastVote 1002 ''evt'' 2 ''Bob'', RemoveVote 1003 ''evt'' 2 ''Bob'']"
  have d1: "distinct (voterKeys storeVoting)" by (simp add: voterKeys_def storeVoting_def)
  have d2: "distinct (voterKeys storeVoted)"
    by (simp add: voterKeys_def storeVoted_def storeVoting_def)
  have f: "find (\<lambda>v. v_eventId v = ''evt'' \<and> v_voterNickname v = ''Alice'') (votes storeVoted)
       = Some aliceVote"
    by (simp add: storeVoted_def storeVoting_def aliceVote_def)
  have n: "v_recommendationId aliceVote \<noteq> 2" by (simp add: aliceVote_def)
  from one_vote_per_voter[OF d1, of ?ops "''evt''" "''Alice''"]
  have le: "length (voterVotes (runVoteOps ?ops storeVoting) ''evt'' ''Alice'') \<le> 1" by blast
  have "voterVotes (runVoteOps ?ops storeVoting) ''evt'' ''Alice'' \<noteq> []"
    unfolding voterVotes_def demo_run by simp
  with le have one: "length (voterVotes (runVoteOps ?ops storeVoting) ''evt'' ''Alice'') = 1"
    by (cases "voterVotes (runVoteOps ?ops storeVoting) ''evt'' ''Alice''") simp_all
  from one_vote_per_voter[OF d2, of "[]" "''evt''" "''Alice''" 2 1000] f n
  have eq: "snd (castVoteTx 1000 ''evt'' 2 ''Alice'' storeVoted)
          = snd (createVote (deleteVote storeVoted (v_id aliceVote)) 2 ''evt'' ''Alice'' 1000)"
    by blast
  have val: "votes (snd (createVote (deleteVote storeVoted (v_id aliceVote)) 2 ''evt'' ''Alice'' 1000))
       = [\<lparr>v_id = 2, v_recommendationId = 2, v_eventId = ''evt'', v_voterNickname = ''Alice'',
           v_votedAt = 1000\<rparr>]"
    by (simp add: createVote_def deleteVote_def storeVoted_def storeVoting_def aliceVote_def Let_def)
  have sw: "votes (snd (castVoteTx 1000 ''evt'' 2 ''Alice'' storeVoted))
       = [\<lparr>v_id = 2, v_recommendationId = 2, v_eventId = ''evt'', v_voterNickname = ''Alice'',
           v_votedAt = 1000\<rparr>]"
    unfolding eq by (rule val)
  from d1 one d2 f n sw show ?thesis by (intro conjI)
qed

section \<open>Properties of casting a vote\<close>

lemma vote_POST_accepted:
  assumes "findUniqueLive s eventId now = Some event" and "e_status event = VOTING"
    and "list_ex (\<lambda>p. p_nickname p = nickname) (eventParticipants s eventId)"
    and "find (\<lambda>r. r_id r = recommendationId \<and> r_eventId r = eventId) (recommendations s) = Some rec"
  shows "vote_POST now eventId recommendationId nickname s
           = (if fst (fst (castVoteTx now eventId recommendationId nickname s))
              then (Inl (ALREADY_VOTED, 409), snd (castVoteTx now eventId recommendationId nickname s))
              else (Inr (voteData (snd (castVoteTx now eventId recommendationId nickname s))
                           recommendationId nickname),
                    snd (castVoteTx now eventId recommendationId nickname s)))"
  using assms by (simp add: vote_POST_def Let_def split: prod.splits)

text \<open>
  Claim C6. For a participant of a live event in VOTING and a recommendation of that
  event: when the voter's existing vote is for this recommendation, the store is left as
  it is and the response is \<open>ALREADY_VOTED\<close> (HTTP 409); when it is for another
  recommendation, the old vote is deleted and a new one appended; when there is none, a
  new vote is appended. In the last two cases the response is a success that carries the
  tally of this recommendation in the new store: the number of its votes, their voters'
  nicknames, and the flag for this voter, which is true.
\<close>

theorem castVote_outcomes:
  assumes "findUniqueLive s eventId now = Some event" and "e_status event = VOTING"
    and "list_ex (\<lambda>p. p_nickname p = nickname) (eventParticipants s eventId)"
    and "find (\<lambda>r. r_id r = recommendationId \<and> r_eventId r = eventId) (recommendations s) = Some rec"
  shows "(\<forall>old. find (\<lambda>v. v_eventId v = eventId \<and> v_voterNickname v = nickname) (votes s) = Some old
               \<and> v_recommendationId old = recommendationId
           \<longrightarrow> vote_POST now eventId recommendationId nickname s = (Inl (ALREADY_VOTED, 409), s))
       \<and> (\<forall>old. find (\<lambda>v. v_eventId v = eventId \<and> v_voterNickname v = nickname) (votes s) = Some old
               \<and> v_recommendationId old \<noteq> recommendationId
           \<longrightarrow> (\<exists>d. vote_POST now eventId recommendationId nickname s
                      = (Inr d,
                         s\<lparr>votes := filter (\<lambda>v. v_id v \<noteq> v_id old) (votes s)
                                @ [\<lparr>v_id = nextVoteId s, v_recommendationId = recommendationId,
                                    v_eventId = eventId, v_voterNickname = nickname,
                                    v_votedAt = now\<rparr>],
                           nextVoteId := nextVoteId s + 1\<rparr>)))
       \<and> (find (\<lambda>v. v_eventId v = eventId \<and> v_voterNickname v = nickname) (votes s) = None
           \<longrightarrow> (\<exists>d. vote_POST now eventId recommendationId nickname s
                      = (Inr d,
                         s\<lparr>votes := votes s
                                @ [\<lparr>v_id = nextVoteId s, v_recommendationId = recommendationId,
                                    v_eventId = eventId, v_voterNickname = nickname,
                                    v_votedAt = now\<rparr>],
                           nextVoteId := nextVoteId s + 1\<rparr>)))
       \<and> (\<forall>d s'. vote_POST now eventId recommendationId nickname s = (Inr d, s')
           \<longrightarrow> vd_voteCount d
                 = length (filter (\<lambda>v. v_recommendationId v = recommendationId) (votes s'))
               \<and> vd_voters d
                 = map v_voterNickname (filter (\<lambda>v. v_recommendationId v = recommendationId) (votes s'))
               \<and> vd_hasCurrentUserVoted d
               \<and> nickname \<in> set (vd_voters d))"
proof -
  note P = vote_POST_accepted[OF assms]
  let ?new = "\<lparr>v_id = nextVoteId s, v_recommendationId = recommendationId,
               v_eventId = eventId, v_voterNickname = nickname, v_votedAt = now\<rparr>"
  have same: "vote_POST now eventId recommendationId nickname s = (Inl (ALREADY_VOTED, 409), s)"
    if "find (\<lambda>v. v_eventId v = eventId \<and> v_voterNickname v = nickname) (votes s) = Some old"
      "v_recommendationId old = recommendationId" for old
    using that by (simp add: P castVoteTx_cases(2))
  have switch: "\<exists>d. vote_POST now eventId recommendationId nickname s
                      = (Inr d, s\<lparr>votes := filter (\<lambda>v. v_id v \<noteq> v_id old) (votes s) @ [?new],
                                   nextVoteId := nextVoteId s + 1\<rparr>)"
    if "find (\<lambda>v. v_eventId v = eventId \<and> v_voterNickname v = nickname) (votes s) = Some old"
      "v_recommendationId old \<noteq> recommendationId" for old
    using that by (simp add: P castVoteTx_cases(3))
  have fresh: "\<exists>d. vote_POST now eventId recommendationId nickname s
                      = (Inr d, s\<lparr>votes := votes s @ [?new], nextVoteId := nextVoteId s + 1\<rparr>)"
    if "find (\<lambda>v. v_eventId v = eventId \<and> v_voterNickname v = nickname) (votes s) = None"
    using that by (simp add: P castVoteTx_cases(1))
  have tally: "vd_voteCount d
                 = length (filter (\<lambda>v. v_recommendationId v = recommendationId) (votes s'))
               \<and> vd_voters d
                 = map v_voterNickname (filter (\<lambda>v. v_recommendationId v = recommendationId) (votes s'))
               \<and> vd_hasCurrentUserVoted d
               \<and> nickname \<in> set (vd_voters d)"
    if r: "vote_POST now eventId recommendationId nickname s = (Inr d, s')" for d s'
  proof (cases "find (\<lambda>v. v_eventId v = eventId \<and> v_voterNickname v = nickname) (votes s)")
    case None
    with r have "s' = s\<lparr>votes := votes s @ [?new], nextVoteId := nextVoteId s + 1\<rparr>"
      "d = voteData s' recommendationId nickname"
      by (auto simp: P castVoteTx_cases(1))
    then show ?thesis by (simp add: voteData_def Let_def)
  next
    case (Some old)
    show ?thesis
    proof (cases "v_recommendationId old = recommendationId")
      case True
      with r Some show ?thesis by (simp add: P castVoteTx_cases(2))
    next
      case False
      with r Some have
        "s' = s\<lparr>votes := filter (\<lambda>v. v_id v \<noteq> v_id old) (votes s) @ [?new],
                 nextVoteId := nextVoteId s + 1\<rparr>"
        "d = voteData s' recommendationId nickname"
        by (auto simp: P castVoteTx_cases(3))
      then show ?thesis by (simp add: voteData_def Let_def)
    qed
  qed
  from same switch fresh tally show ?thesis by blast
qed

lemma demo_voted_view:
  "findUniqueLive storeVoted ''evt'' 1000
     = Some (demoEvent\<lparr>e_status := VOTING, e_votingStartedAt := Some 300\<rparr>)"
  "list_ex (\<lambda>p. p_nickname p = ''Alice'') (eventParticipants storeVoted ''evt'')"
  "list_ex (\<lambda>p. p_nickname p = ''Bob'') (eventParticipants storeVoted ''evt'')"
  "find (\<lambda>r. r_id r = 1 \<and> r_eventId r = ''evt'') (recommendations storeVoted) = Some (demoRec 1)"
  "find (\<lambda>r. r_id r = 2 \<and> r_eventId r = ''evt'') (recommendations storeVoted) = Some (demoRec 2)"
  "find (\<lambda>v. v_eventId v = ''evt'' \<and> v_voterNickname v = ''Alice'') (votes storeVoted)
     = Some aliceVote"
  "find (\<lambda>v. v_eventId v = ''evt'' \<and> v_voterNickname v = ''Bob'') (votes storeVoted) = None"
  "votes storeVoted = [aliceVote]" "nextVoteId storeVoted = 2"
  by (simp_all add: storeVoted_def storeVoting_def findUniqueLive_def eventParticipants_def
        demoEvent_def alice_def bob_def demoRec_def recommendationData_def aliceVote_def)

theorem castVote_outcomes_witness:
  "findUniqueLive storeVoted ''evt'' 1000
     = Some (demoEvent\<lparr>e_status := VOTING, e_votingStartedAt := Some 300\<rparr>)
   \<and> list_ex (\<lambda>p. p_nickname p = ''Alice'') (eventParticipants storeVoted ''evt'')
   \<and> find (\<lambda>r. r_id r = 1 \<and> r_eventId r = ''evt'') (recommendations storeVoted) = Some (demoRec 1)
   \<and> find (\<lambda>v. v_eventId v = ''evt'' \<and> v_voterNickname v = ''Alice'') (votes storeVoted)
       = Some aliceVote
   \<and> v_recommendationId aliceVote = 1
   \<and> vote_POST 1000 ''evt'' 1 ''Alice'' storeVoted = (Inl (ALREADY_VOTED, 409), storeVoted)
   \<and> (\<exists>d. vote_POST 1000 ''evt'' 2 ''Alice'' storeVoted
            = (Inr d, storeVoted\<lparr>votes := [\<lparr>v_id = 2, v_recommendationId = 2, v_eventId = ''evt'',
                                               v_voterNickname = ''Alice'', v_votedAt = 1000\<rparr>],
                                   nextVoteId := 3\<rparr>)
          \<and> vd_voteCount d = 1 \<and> vd_voters d = [''Alice''] \<and> vd_hasCurrentUserVoted d)
   \<and> find (\<lambda>v. v_eventId v = ''evt'' \<and> v_voterNickname v = ''Bob'') (votes storeVoted) = None
   \<and> (\<exists>d. vote_POST 1000 ''evt'' 1 ''Bob'' storeVoted
            = (Inr d, storeVoted\<lparr>votes := [aliceVote,
                                             \<lparr>v_id = 2, v_recommendationId = 1, v_eventId = ''evt'',
                                               v_voterNickname = ''Bob'', v_votedAt = 1000\<rparr>],
                                   nextVoteId := 3\<rparr>)
          \<and> vd_voteCount d = 2 \<and> vd_voters d = [''Alice'', ''Bob''] \<and> vd_hasCurrentUserVoted d)"
proof -
  have st: "e_status (demoEvent\<lparr>e_status := VOTING, e_votingStartedAt := Some 300\<rparr>) = VOTING"
    by simp
  have av: "v_recommendationId aliceVote = 1" "v_recommendationId aliceVote \<noteq> 2" "v_id aliceVote = 1"
    "v_voterNickname aliceVote = ''Alice''"
    by (simp_all add: aliceVote_def)
  note A1 = castVote_outcomes[OF demo_voted_view(1) st demo_voted_view(2) demo_voted_view(4)]
  note A2 = castVote_outcomes[OF demo_voted_view(1) st demo_voted_view(2) demo_voted_view(5)]
  note B1 = castVote_outcomes[OF demo_voted_view(1) st demo_voted_view(3) demo_voted_view(4)]
  from A1 demo_voted_view(6) av(1)
  have same: "vote_POST 1000 ''evt'' 1 ''Alice'' storeVoted = (Inl (ALREADY_VOTED, 409), storeVoted)"
    by blast
  let ?s2 = "storeVoted\<lparr>votes := filter (\<lambda>v. v_id v \<noteq> v_id aliceVote) (votes storeVoted)
                @ [\<lparr>v_id = nextVoteId storeVoted, v_recommendationId = 2, v_eventId = ''evt'',
                    v_voterNickname = ''Alice'', v_votedAt = 1000\<rparr>],
                nextVoteId := nextVoteId storeVoted + 1\<rparr>"
  from A2 demo_voted_view(6) av(2)
  obtain d2 where d2: "vote_POST 1000 ''evt'' 2 ''Alice'' storeVoted = (Inr d2, ?s2)"
    by blast
  from A2 d2 have t2: "vd_voteCount d2
                 = length (filter (\<lambda>v. v_recommendationId v = 2) (votes ?s2))"
      "vd_voters d2 = map v_voterNickname (filter (\<lambda>v. v_recommendationId v = 2) (votes ?s2))"
      "vd_hasCurrentUserVoted d2"
    by blast+
  have s2: "?s2 = storeVoted\<lparr>votes := [\<lparr>v_id = 2, v_recommendationId = 2, v_eventId = ''evt'',
                                               v_voterNickname = ''Alice'', v_votedAt = 1000\<rparr>],
                                   nextVoteId := 3\<rparr>"
    by (simp add: demo_voted_view av)
  have sw: "\<exists>d. vote_POST 1000 ''evt'' 2 ''Alice'' storeVoted
            = (Inr d, storeVoted\<lparr>votes := [\<lparr>v_id = 2, v_recommendationId = 2, v_eventId = ''evt'',
                                               v_voterNickname = ''Alice'', v_votedAt = 1000\<rparr>],
                                   nextVoteId := 3\<rparr>)
          \<and> vd_voteCount d = 1 \<and> vd_voters d = [''Alice''] \<and> vd_hasCurrentUserVoted d"
    using d2 t2 unfolding s2 by (intro exI[of _ d2]) simp
  let ?s3 = "storeVoted\<lparr>votes := votes storeVoted
                @ [\<lparr>v_id = nextVoteId storeVoted, v_recommendationId = 1, v_eventId = ''evt'',
                    v_voterNickname = ''Bob'', v_votedAt = 1000\<rparr>],
                nextVoteId := nextVoteId storeVoted + 1\<rparr>"
  from B1 demo_voted_view(7)
  obtain d3 where d3: "vote_POST 1000 ''evt'' 1 ''Bob'' storeVoted = (Inr d3, ?s3)"
    by blast
  from B1 d3 have t3: "vd_voteCount d3
                 = length (filter (\<lambda>v. v_recommendationId v = 1) (votes ?s3))"
      "vd_voters d3 = map v_voterNickname (filter (\<lambda>v. v_recommendationId v = 1) (votes ?s3))"
      "vd_hasCurrentUserVoted d3"
    by blast+
  have s3: "?s3 = storeVoted\<lparr>votes := [aliceVote,
                                             \<lparr>v_id = 2, v_recommendationId = 1, v_eventId = ''evt'',
                                               v_voterNickname = ''Bob'', v_votedAt = 1000\<rparr>],
                                   nextVoteId := 3\<rparr>"
    by (simp add: demo_voted_view)
  have fr: "\<exists>d. vote_POST 1000 ''evt'' 1 ''Bob'' storeVoted
            = (Inr d, storeVoted\<lparr>votes := [aliceVote,
                                             \<lparr>v_id = 2, v_recommendationId = 1, v_eventId = ''evt'',
                                               v_voterNickname = ''Bob'', v_votedAt = 1000\<rparr>],
                                   nextVoteId := 3\<rparr>)
          \<and> vd_voteCount d = 2 \<and> vd_voters d = [''Alice'', ''Bob''] \<and> vd_hasCurrentUserVoted d"
    using d3 t3 unfolding s3 by (intro exI[of _ d3]) (simp add: av)
  from demo_voted_view(1,2,4,6) av(1) same sw demo_voted_view(7) fr
  show ?thesis by (intro conjI)
qed

section \<open>Properties of voting and unvoting\<close>

lemma votes_GET_cong:
  assumes "events s' = events s" "participants s' = participants s"
    "recommendations s' = recommendations s" "votes s' = votes s"
  shows "votes_GET now eventId viewer s' = votes_GET now eventId viewer s"
proof -
  have "voteSummary s' viewer = voteSummary s viewer"
    by (intro ext) (simp add: voteSummary_def recommendationVotes_def assms)
  moreover have "eventRecommendationsByRank s' eventId = eventRecommendationsByRank s eventId"
    by (simp add: eventRecommendationsByRank_def eventRecommendations_def assms)
  moreover have "eventParticipants s' eventId = eventParticipants s eventId"
    by (simp add: eventParticipants_def assms)
  moreover have "findUniqueLive s' eventId now = findUniqueLive s eventId now"
    by (simp add: findUniqueLive_def assms)
  ultimately show ?thesis
    unfolding votes_GET_def by (simp split: option.splits)
qed

lemma find_append_None:
  "find P xs = None \<Longrightarrow> find P (xs @ ys) = find P ys"
  by (induction xs) (auto split: if_splits)

lemma vote_then_unvote:
  assumes live: "findUniqueLive s eventId now = Some event"
    and live': "findUniqueLive s eventId now' = Some event'"
    and voting: "e_status event = VOTING" "e_status event' = VOTING"
    and member: "list_ex (\<lambda>p. p_nickname p = nickname) (eventParticipants s eventId)"
    and rec: "find (\<lambda>r. r_id r = recommendationId \<and> r_eventId r = eventId) (recommendations s) = Some rec"
    and none: "find (\<lambda>v. v_eventId v = eventId \<and> v_voterNickname v = nickname) (votes s) = None"
    and fresh: "voteIdsFresh s"
  shows "\<exists>d s1 d'. vote_POST now eventId recommendationId nickname s = (Inr d, s1)
           \<and> vote_DELETE now' eventId recommendationId nickname s1
               = (Inr d', s\<lparr>nextVoteId := nextVoteId s + 1\<rparr>)"
proof -
  let ?new = "\<lparr>v_id = nextVoteId s, v_recommendationId = recommendationId,
               v_eventId = eventId, v_voterNickname = nickname, v_votedAt = now\<rparr>"
  let ?s1 = "s\<lparr>votes := votes s @ [?new], nextVoteId := nextVoteId s + 1\<rparr>"
  have post: "vote_POST now eventId recommendationId nickname s
                = (Inr (voteData ?s1 recommendationId nickname), ?s1)"
    using vote_POST_accepted[OF live voting(1) member rec] by (simp add: castVoteTx_cases(1)[OF none])
  have live1: "findUniqueLive ?s1 eventId now' = Some event'"
    using live' by (simp add: findUniqueLive_def)
  have member1: "list_ex (\<lambda>p. p_nickname p = nickname) (eventParticipants ?s1 eventId)"
    using member by (simp add: eventParticipants_def)
  have nokey: "\<not> (v_eventId v = eventId \<and> v_voterNickname v = nickname)" if "v \<in> set (votes s)" for v
    using none that by (auto simp: find_None_iff)
  have find1: "find (\<lambda>v. v_recommendationId v = recommendationId \<and> v_eventId v = eventId
                         \<and> v_voterNickname v = nickname) (votes ?s1) = Some ?new"
  proof -
    have "find (\<lambda>v. v_recommendationId v = recommendationId \<and> v_eventId v = eventId
                         \<and> v_voterNickname v = nickname) (votes s) = None"
      using nokey by (auto simp: find_None_iff)
    then show ?thesis by (simp add: find_append_None)
  qed
  have ids: "v_id v \<noteq> nextVoteId s" if "v \<in> set (votes s)" for v
    using fresh that by (auto simp: voteIdsFresh_def list_all_iff)
  have del: "deleteVote ?s1 (v_id ?new) = s\<lparr>nextVoteId := nextVoteId s + 1\<rparr>"
    using ids by (simp add: deleteVote_def filter_id_conv)
  have "vote_DELETE now' eventId recommendationId nickname ?s1
          = (Inr (voteData (deleteVote ?s1 (v_id ?new)) recommendationId nickname),
             deleteVote ?s1 (v_id ?new))"
    unfolding vote_DELETE_def live1 find1 using voting(2) member1 by (simp add: Let_def)
  then show ?thesis using post del by simp
qed

text \<open>
  Claim C8, as the code has it. For a participant of a live event in VOTING who has no
  live vote in the event, casting a vote for one of the event's recommendations and then
  unvoting it succeeds twice and leaves the vote table, and with it each recommendation's
  vote count and voter list as every viewer sees them, exactly as before the vote. (The
  vote table's sequence is ahead of the stored ids, as a database sequence is.)
\<close>

theorem vote_unvote_roundtrip:
  assumes "findUniqueLive s eventId now = Some event" and "e_status event = VOTING"
    and "findUniqueLive s eventId now' = Some event'" and "e_status event' = VOTING"
    and "list_ex (\<lambda>p. p_nickname p = nickname) (eventParticipants s eventId)"
    and "find (\<lambda>r. r_id r = recommendationId \<and> r_eventId r = eventId) (recommendations s) = Some rec"
    and "voterVotes s eventId nickname = []"
    and "voteIdsFresh s"
  shows "\<exists>d s1 d' s2.
           vote_POST now eventId recommendationId nickname s = (Inr d, s1)
         \<and> vote_DELETE now' eventId recommendationId nickname s1 = (Inr d', s2)
         \<and> votes s2 = votes s
         \<and> (\<forall>t viewer. votes_GET t eventId viewer s2 = votes_GET t eventId viewer s)
         \<and> (\<forall>r n. voteData s2 r n = voteData s r n)"
proof -
  have none: "find (\<lambda>v. v_eventId v = eventId \<and> v_voterNickname v = nickname) (votes s) = None"
    using assms(7) by (simp add: voterVotes_def find_None_iff filter_empty_conv)
  from vote_then_unvote[OF assms(1) assms(3) assms(2) assms(4) assms(5) assms(6) none assms(8)]
  obtain d s1 d' where
    r: "vote_POST now eventId recommendationId nickname s = (Inr d, s1)"
       "vote_DELETE now' eventId recommendationId nickname s1
          = (Inr d', s\<lparr>nextVoteId := nextVoteId s + 1\<rparr>)"
    by blast
  let ?s2 = "s\<lparr>nextVoteId := nextVoteId s + 1\<rparr>"
  have "votes ?s2 = votes s" by simp
  moreover have "votes_GET t eventId viewer ?s2 = votes_GET t eventId viewer s" for t viewer
    by (rule votes_GET_cong) simp_all
  moreover have "voteData ?s2 r n = voteData s r n" for r n
    by (simp add: voteData_def)
  ultimately show ?thesis using r by blast
qed

theorem vote_unvote_roundtrip_witness:
  "findUniqueLive storeVoted ''evt'' 1000
     = Some (demoEvent\<lparr>e_status := VOTING, e_votingStartedAt := Some 300\<rparr>)
   \<and> list_ex (\<lambda>p. p_nickname p = ''Bob'') (eventParticipants storeVoted ''evt'')
   \<and> find (\<lambda>r. r_id r = 2 \<and> r_eventId r = ''evt'') (recommendations storeVoted) = Some (demoRec 2)
   \<and> voterVotes storeVoted ''evt'' ''Bob'' = []
   \<and> voteIdsFresh storeVoted
   \<and> (\<exists>d s1 d' s2.
         vote_POST 1000 ''evt'' 2 ''Bob'' storeVoted = (Inr d, s1)
       \<and> vote_DELETE 1000 ''evt'' 2 ''Bob'' s1 = (Inr d', s2)
       \<and> votes s2 = [aliceVote]
       \<and> votes_GET 1000 ''evt'' (Some ''Bob'') s2 = votes_GET 1000 ''evt'' (Some ''Bob'') storeVoted)"
proof -
  have st: "e_status (demoEvent\<lparr>e_status := VOTING, e_votingStartedAt := Some 300\<rparr>) = VOTING"
    by simp
  have nv: "voterVotes storeVoted ''evt'' ''Bob'' = []"
    by (simp add: voterVotes_def demo_voted_view aliceVote_def)
  have fr: "voteIdsFresh storeVoted"
    by (simp add: voteIdsFresh_def demo_voted_view aliceVote_def)
  from vote_unvote_roundtrip[OF demo_voted_view(1) st demo_voted_view(1) st demo_voted_view(3)
      demo_voted_view(5) nv fr]
  obtain d s1 d' s2 where
    "vote_POST 1000 ''evt'' 2 ''Bob'' storeVoted = (Inr d, s1)"
    "vote_DELETE 1000 ''evt'' 2 ''Bob'' s1 = (Inr d', s2)"
    "votes s2 = votes storeVoted"
    "votes_GET 1000 ''evt'' (Some ''Bob'') s2 = votes_GET 1000 ''evt'' (Some ''Bob'') storeVoted"
    by blast
  then have "\<exists>d s1 d' s2.
         vote_POST 1000 ''evt'' 2 ''Bob'' storeVoted = (Inr d, s1)
       \<and> vote_DELETE 1000 ''evt'' 2 ''Bob'' s1 = (Inr d', s2)
       \<and> votes s2 = [aliceVote]
       \<and> votes_GET 1000 ''evt'' (Some ''Bob'') s2 = votes_GET 1000 ''evt'' (Some ''Bob'') storeVoted"
    unfolding demo_voted_view(8) by blast
  with demo_voted_view(1,3,5) nv fr show ?thesis by (intro conjI)
qed

lemma demo_recs_by_rank:
  "eventRecommendationsByRank storeVoted ''evt'' = [demoRec 1, demoRec 2, demoRec 3]"
  by (simp add: eventRecommendationsByRank_def eventRecommendations_def storeVoted_def
        storeVoting_def demoRec_def recommendationData_def demoLLMRec_def)

lemma demo_rec_fields:
  "r_id (demoRec n) = n" "r_locationName (demoRec n) = Some ''Place''"
  by (simp_all add: demoRec_def recommendationData_def demoLLMRec_def)

lemma demo_switch:
  "vote_POST 1000 ''evt'' 2 ''Alice'' storeVoted
     = (Inr \<lparr>vd_voteCount = 1, vd_voters = [''Alice''], vd_hasCurrentUserVoted = True\<rparr>,
        storeVoted\<lparr>votes := [\<lparr>v_id = 2, v_recommendationId = 2, v_eventId = ''evt'',
                                v_voterNickname = ''Alice'', v_votedAt = 1000\<rparr>],
                    nextVoteId := 3\<rparr>)"
  by (auto simp: vote_POST_def castVoteTx_def createVote_def deleteVote_def voteData_def Let_def
        demo_voted_view aliceVote_def)

lemma demo_switch_unvote:
  "vote_DELETE 1001 ''evt'' 2 ''Alice''
     (storeVoted\<lparr>votes := [\<lparr>v_id = 2, v_recommendationId = 2, v_eventId = ''evt'',
                             v_voterNickname = ''Alice'', v_votedAt = 1000\<rparr>],
                 nextVoteId := 3\<rparr>)
     = (Inr \<lparr>vd_voteCount = 0, vd_voters = [], vd_hasCurrentUserVoted = False\<rparr>,
        storeVoted\<lparr>votes := [], nextVoteId := 3\<rparr>)"
  by (simp add: vote_DELETE_def deleteVote_def voteData_def Let_def findUniqueLive_def
        eventParticipants_def storeVoted_def storeVoting_def demoEvent_def alice_def bob_def)

text \<open>
  Claim C8 as stated fails for a participant who already has a vote: Alice, whose vote is
  for recommendation 1, votes for recommendation 2 (a switch, which deletes her vote for
  1) and unvotes it; recommendation 1 has lost her vote.
\<close>

theorem vote_unvote_counterexample:
  "fst (vote_POST 1000 ''evt'' 2 ''Alice'' storeVoted)
     = Inr \<lparr>vd_voteCount = 1, vd_voters = [''Alice''], vd_hasCurrentUserVoted = True\<rparr>
   \<and> fst (vote_DELETE 1001 ''evt'' 2 ''Alice'' (snd (vote_POST 1000 ''evt'' 2 ''Alice'' storeVoted)))
     = Inr \<lparr>vd_voteCount = 0, vd_voters = [], vd_hasCurrentUserVoted = False\<rparr>
   \<and> votes_GET 1002 ''evt'' None storeVoted
     = Inr \<lparr>vt_recommendations =
               [\<lparr>vs_recommendationId = 1, vs_locationName = ''Place'', vs_voteCount = 1,
                 vs_voters = [''Alice''], vs_hasCurrentUserVoted = False\<rparr>,
                \<lparr>vs_recommendationId = 2, vs_locationName = ''Place'', vs_voteCount = 0,
                 vs_voters = [], vs_hasCurrentUserVoted = False\<rparr>,
                \<lparr>vs_recommendationId = 3, vs_locationName = ''Place'', vs_voteCount = 0,
                 vs_voters = [], vs_hasCurrentUserVoted = False\<rparr>],
             vt_totalVotes = 1, vt_participantCount = 2\<rparr>
   \<and> votes_GET 1002 ''evt'' None
        (snd (vote_DELETE 1001 ''evt'' 2 ''Alice'' (snd (vote_POST 1000 ''evt'' 2 ''Alice'' storeVoted))))
     = Inr \<lparr>vt_recommendations =
               [\<lparr>vs_recommendationId = 1, vs_locationName = ''Place'', vs_voteCount = 0,
                 vs_voters = [], vs_hasCurrentUserVoted = False\<rparr>,
                \<lparr>vs_recommendationId = 2, vs_locationName = ''Place'', vs_voteCount = 0,
                 vs_voters = [], vs_hasCurrentUserVoted = False\<rparr>,
                \<lparr>vs_recommendationId = 3, vs_locationName = ''Place'', vs_voteCount = 0,
                 vs_voters = [], vs_hasCurrentUserVoted = False\<rparr>],
             vt_totalVotes = 0, vt_participantCount = 2\<rparr>"
proof -
  have live: "findUniqueLive storeVoted ''evt'' 1002
     = Some (demoEvent\<lparr>e_status := VOTING, e_votingStartedAt := Some 300\<rparr>)"
    by (simp add: findUniqueLive_def storeVoted_def storeVoting_def demoEvent_def)
  have ps: "eventParticipants storeVoted ''evt'' = [alice, bob]"
    by (simp add: eventParticipants_def storeVoted_def storeVoting_def alice_def bob_def)
  have before: "votes_GET 1002 ''evt'' None storeVoted
     = Inr \<lparr>vt_recommendations =
               [\<lparr>vs_recommendationId = 1, vs_locationName = ''Place'', vs_voteCount = 1,
                 vs_voters = [''Alice''], vs_hasCurrentUserVoted = False\<rparr>,
                \<lparr>vs_recommendationId = 2, vs_locationName = ''Place'', vs_voteCount = 0,
                 vs_voters = [], vs_hasCurrentUserVoted = False\<rparr>,
                \<lparr>vs_recommendationId = 3, vs_locationName = ''Place'', vs_voteCount = 0,
                 vs_voters = [], vs_hasCurrentUserVoted = False\<rparr>],
             vt_totalVotes = 1, vt_participantCount = 2\<rparr>"
    unfolding votes_GET_def live demo_recs_by_rank ps
    by (simp add: voteSummary_def recommendationVotes_def demo_rec_fields demo_voted_view
          aliceVote_def Let_def)
  let ?after = "storeVoted\<lparr>votes := [], nextVoteId := 3\<rparr>"
  have live2: "findUniqueLive ?after ''evt'' 1002
     = Some (demoEvent\<lparr>e_status := VOTING, e_votingStartedAt := Some 300\<rparr>)"
    using live by (simp add: findUniqueLive_def)
  have ps2: "eventParticipants ?after ''evt'' = [alice, bob]"
    using ps by (simp add: eventParticipants_def)
  have recs2: "eventRecommendationsByRank ?after ''evt'' = [demoRec 1, demoRec 2, demoRec 3]"
    using demo_recs_by_rank by (simp add: eventRecommendationsByRank_def eventRecommendations_def)
  have after: "votes_GET 1002 ''evt'' None ?after
     = Inr \<lparr>vt_recommendations =
               [\<lparr>vs_recommendationId = 1, vs_locationName = ''Place'', vs_voteCount = 0,
                 vs_voters = [], vs_hasCurrentUserVoted = False\<rparr>,
                \<lparr>vs_recommendationId = 2, vs_locationName = ''Place'', vs_voteCount = 0,
                 vs_voters = [], vs_hasCurrentUserVoted = False\<rparr>,
                \<lparr>vs_recommendationId = 3, vs_locationName = ''Place'', vs_voteCount = 0,
                 vs_voters = [], vs_hasCurrentUserVoted = False\<rparr>],
             vt_totalVotes = 0, vt_participantCount = 2\<rparr>"
    unfolding votes_GET_def live2 recs2 ps2
    by (simp add: voteSummary_def recommendationVotes_def demo_rec_fields Let_def)
  show ?thesis
    unfolding demo_switch snd_conv fst_conv demo_switch_unvote
    using before after by (intro conjI) simp_all
qed

section \<open>Properties of expired events\<close>

lemma expired_findUniqueLive:
  "expiredOrAbsent s eventId now \<Longrightarrow> findUniqueLive s eventId now = None"
  by (auto simp: expiredOrAbsent_def findUniqueLive_def find_None_iff list_all_iff)

lemma expired_no_live_row:
  "expiredOrAbsent s eventId now \<Longrightarrow>
     \<not> list_ex (\<lambda>e. e_id e = eventId \<and> e_expiresAt e > now) (events s)"
  by (auto simp: expiredOrAbsent_def list_all_iff list_ex_iff)

lemma expired_withoutEvent: "expiredOrAbsent (withoutEvent s eventId) eventId now"
  by (simp add: expiredOrAbsent_def withoutEvent_def list_all_iff)

lemma expired_operations:
  assumes "expiredOrAbsent s eventId now"
  shows "participants_POST rnd now eventId nickname address s = (Inl (EVENT_NOT_FOUND, 404), s, None)"
    and "retry_POST llm now eventId creatorNickname s = (Inl (EVENT_NOT_FOUND, 404), s)"
    and "vote_POST now eventId recommendationId nickname s = (Inl (EVENT_NOT_FOUND, 404), s)"
    and "vote_DELETE now eventId recommendationId nickname s = (Inl (EVENT_NOT_FOUND, 404), s)"
    and "votes_GET now eventId viewer s = Inl (EVENT_NOT_FOUND, 404)"
    and "finalize_POST now eventId finalLocationId creatorNickname s = (Inl (EVENT_NOT_FOUND, 404), s)"
    and "event_GET now eventId s = Inl (EVENT_NOT_FOUND, 404)"
  using expired_findUniqueLive[OF assms]
  by (simp_all add: participants_POST_def retry_POST_def vote_POST_def vote_DELETE_def
        votes_GET_def finalize_POST_def event_GET_def)

lemma expired_lists:
  assumes "expiredOrAbsent s eventId now"
  shows "participants_GET now eventId s = Inr []"
    and "recommendations_GET now eventId s = Inr []"
proof -
  note n = expired_no_live_row[OF assms]
  have "filter (\<lambda>p. p_eventId p = eventId \<and>
                  list_ex (\<lambda>e. e_id e = p_eventId p \<and> e_expiresAt e > now) (events s))
          (participants s) = []"
    using n by (auto simp: filter_empty_conv)
  then show "participants_GET now eventId s = Inr []"
    by (simp add: participants_GET_def)
  have "filter (\<lambda>r. r_eventId r = eventId \<and>
                  list_ex (\<lambda>e. e_id e = r_eventId r \<and> e_expiresAt e > now) (events s))
          (recommendations s) = []"
    using n by (auto simp: filter_empty_conv)
  then show "recommendations_GET now eventId s = Inr []"
    by (simp add: recommendations_GET_def)
qed

text \<open>
  Claim C5, as the code has it. When every row with the event's id has \<open>expiresAt\<close> at
  or before the current time, whatever its status, the join, retry, vote, unvote, tally,
  finalize and read operations answer \<open>EVENT_NOT_FOUND\<close> (HTTP 404) and leave the store
  as it is, while the two list operations answer with a success that carries an empty
  list. In all nine cases the response is the one given when the event does not exist.
\<close>

theorem expired_event_operations:
  assumes "expiredOrAbsent s eventId now"
  shows "participants_POST rnd now eventId nickname address s = (Inl (EVENT_NOT_FOUND, 404), s, None)
       \<and> retry_POST llm now eventId creatorNickname s = (Inl (EVENT_NOT_FOUND, 404), s)
       \<and> vote_POST now eventId recommendationId nickname s = (Inl (EVENT_NOT_FOUND, 404), s)
       \<and> vote_DELETE now eventId recommendationId nickname s = (Inl (EVENT_NOT_FOUND, 404), s)
       \<and> votes_GET now eventId viewer s = Inl (EVENT_NOT_FOUND, 404)
       \<and> finalize_POST now eventId finalLocationId creatorNickname s = (Inl (EVENT_NOT_FOUND, 404), s)
       \<and> event_GET now eventId s = Inl (EVENT_NOT_FOUND, 404)
       \<and> participants_GET now eventId s = Inr []
       \<and> recommendations_GET now eventId s = Inr []
       \<and> fst (participants_POST rnd now eventId nickname address (withoutEvent s eventId))
           = fst (participants_POST rnd now eventId nickname address s)
       \<and> fst (retry_POST llm now eventId creatorNickname (withoutEvent s eventId))
           = fst (retry_POST llm now eventId creatorNickname s)
       \<and> fst (vote_POST now eventId recommendationId nickname (withoutEvent s eventId))
           = fst (vote_POST now eventId recommendationId nickname s)
       \<and> fst (vote_DELETE now eventId recommendationId nickname (withoutEvent s eventId))
           = fst (vote_DELETE now eventId recommendationId nickname s)
       \<and> votes_GET now eventId viewer (withoutEvent s eventId) = votes_GET now eventId viewer s
       \<and> fst (finalize_POST now eventId finalLocationId creatorNickname (withoutEvent s eventId))
           = fst (finalize_POST now eventId finalLocationId creatorNickname s)
       \<and> event_GET now eventId (withoutEvent s eventId) = event_GET now eventId s
       \<and> participants_GET now eventId (withoutEvent s eventId) = participants_GET now eventId s
       \<and> recommendations_GET now eventId (withoutEvent s eventId) = recommendations_GET now eventId s"
  by (simp add: expired_operations[OF assms] expired_lists[OF assms]
        expired_operations[OF expired_withoutEvent] expired_lists[OF expired_withoutEvent])

theorem expired_event_operations_witness:
  "expiredOrAbsent storeVoted ''evt'' 6000
   \<and> e_status (hd (events storeVoted)) = VOTING
   \<and> vote_POST 6000 ''evt'' 1 ''Bob'' storeVoted = (Inl (EVENT_NOT_FOUND, 404), storeVoted)
   \<and> finalize_POST 6000 ''evt'' 1 ''Alice'' storeVoted = (Inl (EVENT_NOT_FOUND, 404), storeVoted)
   \<and> event_GET 6000 ''evt'' storeVoted = Inl (EVENT_NOT_FOUND, 404)
   \<and> participants_GET 6000 ''evt'' storeVoted = Inr []
   \<and> recommendations_GET 6000 ''evt'' storeVoted = Inr []
   \<and> event_GET 6000 ''evt'' (withoutEvent storeVoted ''evt'') = Inl (EVENT_NOT_FOUND, 404)"
proof -
  have e: "expiredOrAbsent storeVoted ''evt'' 6000"
    by (simp add: expiredOrAbsent_def storeVoted_def storeVoting_def demoEvent_def)
  have st: "e_status (hd (events storeVoted)) = VOTING"
    by (simp add: storeVoted_def storeVoting_def)
  note T = expired_event_operations[OF e, of "\<lambda>k. 5" "''Bob''" "''Addr B''" generatorThree
      "''Alice''" 1 None 1]
  from T have
    "vote_POST 6000 ''evt'' 1 ''Bob'' storeVoted = (Inl (EVENT_NOT_FOUND, 404), storeVoted)"
    "finalize_POST 6000 ''evt'' 1 ''Alice'' storeVoted = (Inl (EVENT_NOT_FOUND, 404), storeVoted)"
    "event_GET 6000 ''evt'' storeVoted = Inl (EVENT_NOT_FOUND, 404)"
    "participants_GET 6000 ''evt'' storeVoted = Inr []"
    "recommendations_GET 6000 ''evt'' storeVoted = Inr []"
    "event_GET 6000 ''evt'' (withoutEvent storeVoted ''evt'') = event_GET 6000 ''evt'' storeVoted"
    by blast+
  with e st show ?thesis by simp
qed

text \<open>
  Claim C5 as stated fails for the two list operations: for the expired sample event,
  which has two participants and three recommendations, both return a success with an
  empty list, not a NOT_FOUND-class error.
\<close>

theorem expired_event_counterexample:
  "e_expiresAt demoEvent < 6000
   \<and> map e_id (events storeVoting) = [''evt'']
   \<and> length (eventParticipants storeVoting ''evt'') = 2
   \<and> length (eventRecommendations storeVoting ''evt'') = 3
   \<and> participants_GET 6000 ''evt'' storeVoting = Inr []
   \<and> recommendations_GET 6000 ''evt'' storeVoting = Inr []
   \<and> participants_GET 6000 ''evt'' storeVoting \<noteq> Inl (EVENT_NOT_FOUND, 404)
   \<and> recommendations_GET 6000 ''evt'' storeVoting \<noteq> Inl (EVENT_NOT_FOUND, 404)"
  by (simp add: participants_GET_def recommendations_GET_def eventParticipants_def
        eventRecommendations_def storeVoting_def demoEvent_def alice_def bob_def demoRec_def
        recommendationData_def)

end
